theory Spec2Isabelle
  imports Complex_Main "HOL-Library.Sublist" "HOL-Library.Product_Lexorder" "HOL-Library.Multiset"
    "HOL-Library.Log_Nat"
begin

section \<open>Values of the source language\<close>

text \<open>
  A JavaScript \<open>number\<close> is an IEEE 754 double: a finite value, the two infinities, or
  \<open>NaN\<close>. A finite value is held as the rational it denotes (the sign of zero is not
  modelled). \<open>NaN\<close> is absorbing, every comparison with \<open>NaN\<close> is false, an infinity
  times zero is \<open>NaN\<close>.
\<close>

datatype jsnum = Fin rat | PInf | NInf | NaN

text \<open>\<open>2 ^ e\<close> for an integer exponent.\<close>

definition pow2 :: "int \<Rightarrow> rat" where
  "pow2 e = (if 0 \<le> e then of_int (2 ^ nat e) else 1 / of_int (2 ^ nat (- e)))"

text \<open>The exponent \<open>e\<close> with \<open>2 ^ e \<le> x < 2 ^ (e + 1)\<close>, for a positive \<open>x\<close>.\<close>

definition binade :: "rat \<Rightarrow> int" where
  "binade x =
     (let d = bitlen (fst (quotient_of x)) - bitlen (snd (quotient_of x))
      in if pow2 d \<le> x then d else d - 1)"

text \<open>The nearest integer, the even one of the two when they are equally near.\<close>

definition round_half_even :: "rat \<Rightarrow> int" where
  "round_half_even y =
     (let f = \<lfloor>y\<rfloor>; d = y - of_int f
      in if d < 1 / 2 then f else if 1 / 2 < d then f + 1 else if even f then f else f + 1)"

text \<open>
  The double an exact result is rounded to, as every arithmetic operation on doubles
  does (round to nearest, ties to even): 53 significant bits, exponents from -1022 (below
  it the spacing stays \<open>2 ^ -1074\<close>), and an infinity from \<open>2 ^ 1024\<close> on.
\<close>

definition round_double :: "rat \<Rightarrow> jsnum" where
  "round_double x =
     (if x = 0 then Fin 0
      else (let quantum = pow2 (max (binade \<bar>x\<bar>) (- 1022) - 52);
                m = of_int (round_half_even (\<bar>x\<bar> / quantum)) * quantum
            in if pow2 1024 \<le> m then (if 0 < x then PInf else NInf)
               else Fin (if 0 < x then m else - m)))"

text \<open>\<open>a * b\<close>\<close>

fun jmul :: "jsnum \<Rightarrow> jsnum \<Rightarrow> jsnum" where
  "jmul NaN _ = NaN"
| "jmul _ NaN = NaN"
| "jmul (Fin a) (Fin b) = round_double (a * b)"
| "jmul (Fin a) PInf = (if a = 0 then NaN else if 0 < a then PInf else NInf)"
| "jmul (Fin a) NInf = (if a = 0 then NaN else if 0 < a then NInf else PInf)"
| "jmul PInf (Fin b) = (if b = 0 then NaN else if 0 < b then PInf else NInf)"
| "jmul NInf (Fin b) = (if b = 0 then NaN else if 0 < b then NInf else PInf)"
| "jmul PInf PInf = PInf"
| "jmul PInf NInf = NInf"
| "jmul NInf PInf = NInf"
| "jmul NInf NInf = PInf"

text \<open>\<open>a + b\<close>\<close>

fun jadd :: "jsnum \<Rightarrow> jsnum \<Rightarrow> jsnum" where
  "jadd NaN _ = NaN"
| "jadd _ NaN = NaN"
| "jadd (Fin a) (Fin b) = round_double (a + b)"
| "jadd PInf NInf = NaN"
| "jadd NInf PInf = NaN"
| "jadd PInf _ = PInf"
| "jadd _ PInf = PInf"
| "jadd NInf _ = NInf"
| "jadd _ NInf = NInf"

text \<open>\<open>a >= b\<close>\<close>

fun jge :: "jsnum \<Rightarrow> jsnum \<Rightarrow> bool" where
  "jge NaN _ = False"
| "jge _ NaN = False"
| "jge (Fin a) (Fin b) = (b \<le> a)"
| "jge PInf _ = True"
| "jge _ NInf = True"
| "jge _ PInf = False"
| "jge NInf _ = False"

text \<open>\<open>a > b\<close>\<close>

fun jgt :: "jsnum \<Rightarrow> jsnum \<Rightarrow> bool" where
  "jgt NaN _ = False"
| "jgt _ NaN = False"
| "jgt (Fin a) (Fin b) = (b < a)"
| "jgt PInf PInf = False"
| "jgt NInf NInf = False"
| "jgt PInf _ = True"
| "jgt _ NInf = True"
| "jgt _ PInf = False"
| "jgt NInf _ = False"

text \<open>\<open>Math.max(a, b)\<close>: \<open>NaN\<close> when either argument is.\<close>

fun jmax :: "jsnum \<Rightarrow> jsnum \<Rightarrow> jsnum" where
  "jmax NaN _ = NaN"
| "jmax _ NaN = NaN"
| "jmax a b = (if jge a b then a else b)"

text \<open>Truthiness of a number: \<open>0\<close> and \<open>NaN\<close> are falsy.\<close>

fun truthy_num :: "jsnum \<Rightarrow> bool" where
  "truthy_num (Fin a) = (a \<noteq> 0)"
| "truthy_num NaN = False"
| "truthy_num _ = True"

text \<open>\<open>x || d\<close> for an optional number \<open>x\<close> (absent is \<open>None\<close>).\<close>

fun num_or :: "jsnum option \<Rightarrow> jsnum \<Rightarrow> jsnum" where
  "num_or None d = d"
| "num_or (Some v) d = (if truthy_num v then v else d)"

text \<open>
  A thrown value: an \<open>Error\<close> instance with its message (\<open>TypeError\<close>, \<open>RangeError\<close> and
  the errors of \<open>fetch\<close> and of the database driver are instances of it), or any other
  value.
\<close>

datatype exn = Error string | NonError

section \<open>Data model (kraxel-api.ts)\<close>

text \<open>
  \<open>SwapDetail\<close>. The amounts are strings in the source and are only ever read through
  \<open>parseFloat\<close>: the fields hold the number \<open>parseFloat\<close> reads from the string
  (\<open>NaN\<close> for a string that does not start with a number).
\<close>

record swap_detail =
  in_asset :: string
  in_amount :: jsnum
  out_asset :: string
  out_amount :: jsnum

text \<open>
  \<open>Transaction\<close>. A string field that is absent (\<open>undefined\<close>) is the empty string:
  the code reads \<open>tx_id\<close> and \<open>user_address\<close> only under a truthiness test, which
  treats both alike. \<open>block_time\<close> is the instant \<open>new Date(block_time).getTime()\<close>
  reads from the ISO timestamp, in milliseconds. \<open>swap_details\<close> is optional.
\<close>

record transaction =
  tx_id :: string
  user_address :: string
  block_height :: int
  block_time :: int
  swap_details :: "swap_detail list option"

section \<open>Validation results and queries (kraxel-validation.ts)\<close>

text \<open>\<open>ValidationResult\<close>; the free-form \<open>metadata\<close> is not modelled.\<close>

record validation_result =
  satisfied :: bool
  matches :: "transaction list"

text \<open>
  \<open>ValidationQuery.execute\<close>: an effectful computation over a world \<open>'w\<close> that resolves
  to a result (\<open>Inr\<close>) or rejects with a thrown value (\<open>Inl\<close>).
\<close>

type_synonym 'w query = "'w \<Rightarrow> (exn + validation_result) \<times> 'w"

subsection \<open>Combinators\<close>

text \<open>The predicate of \<open>rightResult.matches.some(...)\<close> in \<open>combinators.and\<close>.\<close>

definition and_pairs :: "transaction \<Rightarrow> transaction \<Rightarrow> bool" where
  "and_pairs leftMatch rightMatch \<longleftrightarrow>
     (tx_id leftMatch \<noteq> [] \<and> tx_id rightMatch \<noteq> [] \<and> tx_id leftMatch = tx_id rightMatch) \<or>
     (user_address leftMatch \<noteq> [] \<and> user_address rightMatch \<noteq> [] \<and>
      user_address leftMatch = user_address rightMatch)"

text \<open>The body of \<open>combinators.and\<close> once both operands have resolved.\<close>

definition and_result :: "validation_result \<Rightarrow> validation_result \<Rightarrow> validation_result" where
  "and_result leftResult rightResult =
     (let combinedMatches =
            filter (\<lambda>leftMatch. list_ex (and_pairs leftMatch) (matches rightResult))
              (matches leftResult)
      in \<lparr>satisfied = satisfied leftResult \<and> satisfied rightResult \<and> length combinedMatches > 0,
          matches = combinedMatches\<rparr>)"

text \<open>
  \<open>Promise.all([left.execute(), right.execute()])\<close>: both operands run; the model runs
  the left one to its end and then the right one (the interleaving of their requests
  is not modelled). A rejection of either operand rejects the combination; when both
  reject, \<open>Promise.all\<close> reports the rejection that settles first, and the model reports
  the left one's.
\<close>

definition execute_both ::
  "'w query \<Rightarrow> 'w query \<Rightarrow> 'w \<Rightarrow> (exn + validation_result \<times> validation_result) \<times> 'w" where
  "execute_both left right w =
     (case left w of (l, w1) \<Rightarrow>
        case right w1 of (r, w2) \<Rightarrow>
          (case l of
             Inl e \<Rightarrow> (Inl e, w2)
           | Inr leftResult \<Rightarrow>
               (case r of
                  Inl e \<Rightarrow> (Inl e, w2)
                | Inr rightResult \<Rightarrow> (Inr (leftResult, rightResult), w2))))"

definition combinators_and :: "'w query \<Rightarrow> 'w query \<Rightarrow> 'w query" where
  "combinators_and left right w =
     (case execute_both left right w of
        (Inl e, w') \<Rightarrow> (Inl e, w')
      | (Inr (leftResult, rightResult), w') \<Rightarrow> (Inr (and_result leftResult rightResult), w'))"




text \<open>\<open>combinators.not\<close>.\<close>

definition combinators_not :: "'w query \<Rightarrow> 'w query" where
  "combinators_not validator w =
     (case validator w of
        (Inl e, w') \<Rightarrow> (Inl e, w')
      | (Inr result, w') \<Rightarrow> (Inr \<lparr>satisfied = \<not> satisfied result, matches = []\<rparr>, w'))"


section \<open>Result store (db/schema.ts, db/queries.ts)\<close>

text \<open>
  \<open>quest.criteria\<close> is free-form JSON; the runner reads \<open>type\<close> and these fields of
  \<open>params\<close>. An optional field that is absent is \<open>None\<close>.
\<close>

record criteria_params =
  param_tokenPrincipal :: string
  param_startTime :: "int option"
  param_endTime :: "int option"
  param_numUsers :: "jsnum option"
  param_minValueUsd :: "jsnum option"
  param_userAddress :: "string option"

record criteria =
  criteria_type :: string
  criteria_params :: criteria_params

datatype quest_status = Draft | Active | Completed | Archived

record quest =
  quest_id :: string
  title :: string
  quest_status :: quest_status
  quest_criteria :: criteria

datatype validation_status = Pending | Success | Failed | Partial

text \<open>
  A row of \<open>QuestValidation\<close>. The database draws the row's \<open>id\<close> at random; the model
  numbers the rows in the order of their creation. \<open>validationData\<close> is the snapshot of
  the criteria and the start time.
\<close>

record quest_validation =
  validation_id :: nat
  questId :: string
  validatedAt :: int
  status :: validation_status
  validationData :: "criteria \<times> int"
  errorMessage :: "string option"
  nextValidationAt :: "int option"
  validAddresses :: "string list"
  processingTime :: int

text \<open>A row of \<open>QuestValidationResult\<close>; \<open>resultData\<close> holds the fields of the match.\<close>

record quest_validation_result =
  validationId :: nat
  resultUserAddress :: string
  isValid :: bool
  resultData :: transaction
  resultValidatedAt :: int
  criteriaType :: string

section \<open>The world the code runs in\<close>

datatype http_method = GET | POST

text \<open>
  A request parameter. A date travels as its ISO-8601 text; the model keeps the instant
  (\<open>PDate\<close>, in milliseconds) the text denotes.
\<close>

datatype param_value = PNum int | PStr string | PDate int

record api_request =
  endpoint :: string
  verb :: http_method
  params :: "(string \<times> param_value) list"

text \<open>
  What the code cannot decide: the readings of the wall clock, the outcome of each
  \<open>fetch\<close> and whether a database operation fails. Each is an oracle indexed by how
  many readings, fetches or database operations came before, so any run of the
  environment is one value of \<open>env\<close>. A fetch yields \<open>Inl e\<close> when \<open>fetch\<close> rejects (a
  network failure, the abort of the timeout), the response is not 2xx, or its body does
  not parse; otherwise the \<open>data\<close> field of the body, \<open>None\<close> when it is null.
\<close>

record env =
  clock :: "nat \<Rightarrow> int"
  fetch_transactions :: "nat \<Rightarrow> api_request \<Rightarrow> exn + transaction list option"
  fetch_prices :: "nat \<Rightarrow> api_request \<Rightarrow> exn + (string \<rightharpoonup> jsnum) option"
  db_fault :: "nat \<Rightarrow> exn option"

text \<open>
  What the code changes: the calls of \<open>fetch\<close> made so far, the delays slept between
  attempts, the number of clock readings and database operations, and the tables.
\<close>

record world =
  requests :: "api_request list"
  sleeps :: "nat list"
  ticks :: nat
  db_ops :: nat
  quests :: "quest list"
  validations :: "quest_validation list"
  results :: "quest_validation_result list"

text \<open>\<open>Date.now()\<close>\<close>

definition date_now :: "env \<Rightarrow> world \<Rightarrow> int \<times> world" where
  "date_now env w = (clock env (ticks w), w\<lparr>ticks := ticks w + 1\<rparr>)"

section \<open>Data client (kraxel-api.ts)\<close>

record kraxel_config =
  maxRetries :: nat
  defaultTimeout :: nat

definition DEFAULT_CONFIG :: kraxel_config where
  "DEFAULT_CONFIG = \<lparr>maxRetries = 3, defaultTimeout = 10000\<rparr>"

text \<open>
  The retry loop of \<open>KraxelAPI.request\<close>, from \<open>while (attempts < maxRetries)\<close> on.
  \<open>do_fetch k\<close> is the outcome of the fetch when \<open>k\<close> fetches came before. The timer of
  the timeout is real time and is not modelled: an aborted fetch is a fetch that throws.
\<close>

function request_loop ::
  "kraxel_config \<Rightarrow> (nat \<Rightarrow> exn + 'a) \<Rightarrow> api_request \<Rightarrow> nat \<Rightarrow> world \<Rightarrow> (exn + 'a) \<times> world" where
  "request_loop config do_fetch req attempts w =
     (if attempts < maxRetries config then
        (case do_fetch (length (requests w)) of
           Inr body \<Rightarrow> (Inr body, w\<lparr>requests := requests w @ [req]\<rparr>)
         | Inl error \<Rightarrow>
             (if attempts + 1 \<ge> maxRetries config
              then (Inl error, w\<lparr>requests := requests w @ [req]\<rparr>)
              else request_loop config do_fetch req (attempts + 1)
                     (w\<lparr>requests := requests w @ [req],
                        sleeps := sleeps w @ [2 ^ (attempts + 1) * 100]\<rparr>)))
      else (Inl (Error ''Maximum retries reached''), w))"
  by pat_completeness auto
termination
  by (relation "measure (\<lambda>(config, do_fetch, req, attempts, w). maxRetries config - attempts)") auto

definition request ::
  "kraxel_config \<Rightarrow> (nat \<Rightarrow> api_request \<Rightarrow> exn + 'a) \<Rightarrow> api_request \<Rightarrow> world \<Rightarrow> (exn + 'a) \<times> world" where
  "request config fetcher req w = request_loop config (\<lambda>k. fetcher k req) req 0 w"

text \<open>The methods the validators call, on the singleton client with the default configuration.\<close>

definition getSwapsByContract ::
  "env \<Rightarrow> string \<Rightarrow> (string \<times> param_value) list \<Rightarrow> world
     \<Rightarrow> (exn + transaction list option) \<times> world" where
  "getSwapsByContract env contractPrincipal ps w =
     request DEFAULT_CONFIG (fetch_transactions env)
       \<lparr>endpoint = ''/swaps/contract/'' @ contractPrincipal, verb = GET, params = ps\<rparr> w"

definition getRecentSwaps ::
  "env \<Rightarrow> (string \<times> param_value) list \<Rightarrow> world \<Rightarrow> (exn + transaction list option) \<times> world" where
  "getRecentSwaps env ps w =
     request DEFAULT_CONFIG (fetch_transactions env)
       \<lparr>endpoint = ''/swaps'', verb = GET, params = ps\<rparr> w"

definition getTokenTransfers ::
  "env \<Rightarrow> string \<Rightarrow> string \<Rightarrow> (string \<times> param_value) list \<Rightarrow> world
     \<Rightarrow> (exn + transaction list option) \<times> world" where
  "getTokenTransfers env address contractPrincipal ps w =
     request DEFAULT_CONFIG (fetch_transactions env)
       \<lparr>endpoint = ''/transactions/token-transfers/'' @ address @ ''/'' @ contractPrincipal,
        verb = GET, params = ps\<rparr> w"

definition getLatestPrices ::
  "env \<Rightarrow> world \<Rightarrow> (exn + (string \<rightharpoonup> jsnum) option) \<times> world" where
  "getLatestPrices env w =
     request DEFAULT_CONFIG (fetch_prices env)
       \<lparr>endpoint = ''/prices/latest'', verb = GET, params = []\<rparr> w"


section \<open>Validator primitives (kraxel-validation.ts)\<close>

subsection \<open>Strings\<close>

text \<open>
  Strings are lists of 8-bit characters. The white space \<open>String.prototype.trim\<close>
  removes, among these: tab, line feed, vertical tab, form feed, carriage return, space
  and no-break space.
\<close>

definition is_white_space :: "char \<Rightarrow> bool" where
  "is_white_space c \<longleftrightarrow> of_char c \<in> {9, 10, 11, 12, 13, 32, 160 :: nat}"

definition trim :: "string \<Rightarrow> string" where
  "trim s = rev (dropWhile is_white_space (rev (dropWhile is_white_space s)))"

text \<open>\<open>toLowerCase\<close> on the letters A to Z; no other character lowers to a letter of \<open>welsh\<close>.\<close>

definition lower_char :: "char \<Rightarrow> char" where
  "lower_char c =
     (if 65 \<le> (of_char c :: nat) \<and> (of_char c :: nat) \<le> 90 then char_of (of_char c + 32 :: nat) else c)"

definition toLowerCase :: "string \<Rightarrow> string" where
  "toLowerCase s = map lower_char s"

text \<open>\<open>s.includes(sub)\<close>\<close>

fun str_includes :: "string \<Rightarrow> string \<Rightarrow> bool" where
  "str_includes [] sub = (sub = [])"
| "str_includes (c # cs) sub = (prefix sub (c # cs) \<or> str_includes cs sub)"

text \<open>\<open>s.split('::')[0]\<close>: the text before the first \<open>::\<close>, all of \<open>s\<close> when it has none.\<close>

fun split_head :: "string \<Rightarrow> string" where
  "split_head [] = []"
| "split_head (c # cs) = (if prefix ''::'' (c # cs) then [] else c # split_head cs)"

text \<open>\<open>normalizeTokenPrincipal\<close>\<close>

definition normalizeTokenPrincipal :: "string \<Rightarrow> string list" where
  "normalizeTokenPrincipal tokenPrincipal =
     (let normalized = trim tokenPrincipal in
      if str_includes (toLowerCase normalized) ''welsh''
      then [normalized, ''SP3NE50GEXFG9SZGTT51P40X2CKYSZ5CC4ZTZ7A2G.welshcorgicoin-token'']
      else [normalized])"

text \<open>
  \<open>new Date(ms).toISOString()\<close>: throws a \<open>RangeError\<close> outside the range of \<open>Date\<close>
  (8.64e15 milliseconds either side of the epoch); the text is kept as the instant.
\<close>

definition toISOString :: "int \<Rightarrow> exn + int" where
  "toISOString ms =
     (if \<bar>ms\<bar> \<le> 8640000000000000 then Inr ms else Inl (Error ''Invalid time value''))"

text \<open>
  The \<open>catch\<close> block every primitive ends with: a thrown value becomes the result
  \<open>{ satisfied: false, matches: [] }\<close>.
\<close>

definition catch_unsatisfied ::
  "(exn + validation_result) \<times> world \<Rightarrow> (exn + validation_result) \<times> world" where
  "catch_unsatisfied outcome =
     (case outcome of
        (Inl error, w) \<Rightarrow> (Inr \<lparr>satisfied = False, matches = []\<rparr>, w)
      | (Inr result, w) \<Rightarrow> (Inr result, w))"

subsection \<open>swappedFor\<close>

text \<open>\<open>array.some((detail, index, array) => ...)\<close>\<close>

definition some_indexed :: "('a \<Rightarrow> nat \<Rightarrow> 'a list \<Rightarrow> bool) \<Rightarrow> 'a list \<Rightarrow> bool" where
  "some_indexed p array = list_ex (\<lambda>index. p (array ! index) index array) [0..<length array]"

text \<open>The predicate of \<open>swaps.data.filter(...)\<close>; an absent \<open>swap_details\<close> is falsy.\<close>

definition swap_matches :: "string \<Rightarrow> transaction \<Rightarrow> bool" where
  "swap_matches tokenVariant swap =
     (case swap_details swap of
        None \<Rightarrow> False
      | Some details \<Rightarrow>
          some_indexed
            (\<lambda>detail index array.
               int index = int (length array) - 1 \<and> split_head (out_asset detail) = tokenVariant)
            details)"

text \<open>
  The loop over the token variations, with the variable \<open>matchingSwaps\<close> it assigns;
  a \<open>break\<close> is the return of the matches found.
\<close>

fun swappedFor_loop ::
  "env \<Rightarrow> (string \<times> param_value) list \<Rightarrow> string list \<Rightarrow> transaction list \<Rightarrow> world
     \<Rightarrow> (exn + transaction list) \<times> world" where
  "swappedFor_loop env ps [] matchingSwaps w = (Inr matchingSwaps, w)"
| "swappedFor_loop env ps (tokenVariant # rest) matchingSwaps w =
     (case getSwapsByContract env tokenVariant ps w of
        (Inl error, w1) \<Rightarrow> (Inl error, w1)
      | (Inr None, w1) \<Rightarrow> swappedFor_loop env ps rest matchingSwaps w1
      | (Inr (Some data), w1) \<Rightarrow>
          (if length data > 0
           then (if length (filter (swap_matches tokenVariant) data) > 0
                 then (Inr (filter (swap_matches tokenVariant) data), w1)
                 else swappedFor_loop env ps rest (filter (swap_matches tokenVariant) data) w1)
           else swappedFor_loop env ps rest matchingSwaps w1))"

text \<open>The \<open>try\<close> block of \<open>swappedFor\<close>; \<open>endTime || now\<close> takes \<open>now\<close> for an absent or zero end.\<close>

definition swappedFor_body ::
  "env \<Rightarrow> string \<Rightarrow> int \<Rightarrow> int option \<Rightarrow> world \<Rightarrow> (exn + validation_result) \<times> world" where
  "swappedFor_body env tokenPrincipal startTime endTime w =
     (case date_now env w of (ms, w1) \<Rightarrow>
        (let now = ms div 1000;
             effectiveEndTime = (case endTime of None \<Rightarrow> now | Some e \<Rightarrow> if e \<noteq> 0 then e else now)
         in case toISOString (startTime * 1000) of
              Inl error \<Rightarrow> (Inl error, w1)
            | Inr startDate \<Rightarrow>
                (case toISOString (effectiveEndTime * 1000) of
                   Inl error \<Rightarrow> (Inl error, w1)
                 | Inr endDate \<Rightarrow>
                     (case swappedFor_loop env
                             [(''limit'', PNum 100), (''start_date'', PDate startDate),
                              (''end_date'', PDate endDate)]
                             (normalizeTokenPrincipal tokenPrincipal) [] w1 of
                        (Inl error, w2) \<Rightarrow> (Inl error, w2)
                      | (Inr matchingSwaps, w2) \<Rightarrow>
                          (Inr \<lparr>satisfied = length matchingSwaps > 0, matches = matchingSwaps\<rparr>,
                           w2)))))"

definition swappedFor :: "env \<Rightarrow> string \<Rightarrow> int \<Rightarrow> int option \<Rightarrow> world query" where
  "swappedFor env tokenPrincipal startTime endTime w =
     catch_unsatisfied (swappedFor_body env tokenPrincipal startTime endTime w)"

subsection \<open>minValueSwap\<close>

text \<open>\<open>priceData[asset] || 0\<close>\<close>

definition price_of :: "(string \<rightharpoonup> jsnum) \<Rightarrow> string \<Rightarrow> jsnum" where
  "price_of priceData asset = num_or (priceData asset) (Fin 0)"

text \<open>The body of \<open>swap_details.forEach\<close>: the new \<open>swapValue\<close> after one leg.\<close>

definition add_leg :: "(string \<rightharpoonup> jsnum) \<Rightarrow> jsnum \<Rightarrow> swap_detail \<Rightarrow> jsnum" where
  "add_leg priceData swapValue detail =
     (let inAssetPrice = price_of priceData (in_asset detail);
          outAssetPrice = price_of priceData (out_asset detail);
          inValue = jmul (in_amount detail) inAssetPrice;
          outValue = jmul (out_amount detail) outAssetPrice
      in jadd swapValue (jmax inValue outValue))"

text \<open>\<open>swapValue\<close> after the loop over the legs; no loop when \<open>swap_details\<close> is absent.\<close>

definition swap_value :: "(string \<rightharpoonup> jsnum) \<Rightarrow> transaction \<Rightarrow> jsnum" where
  "swap_value priceData swap =
     (case swap_details swap of
        None \<Rightarrow> Fin 0
      | Some details \<Rightarrow> foldl (add_leg priceData) (Fin 0) details)"

text \<open>The default \<open>getTransactions\<close>: the recent swaps, \<open>swaps.data || []\<close>.\<close>

definition recentSwaps :: "env \<Rightarrow> world \<Rightarrow> (exn + transaction list) \<times> world" where
  "recentSwaps env w =
     (case getRecentSwaps env [(''limit'', PNum 100)] w of
        (Inl error, w1) \<Rightarrow> (Inl error, w1)
      | (Inr None, w1) \<Rightarrow> (Inr [], w1)
      | (Inr (Some data), w1) \<Rightarrow> (Inr data, w1))"

definition minValueSwap_body ::
  "env \<Rightarrow> jsnum \<Rightarrow> (world \<Rightarrow> (exn + transaction list) \<times> world) \<Rightarrow> world
     \<Rightarrow> (exn + validation_result) \<times> world" where
  "minValueSwap_body env minValueUsd getTransactions w =
     (case getTransactions w of
        (Inl error, w1) \<Rightarrow> (Inl error, w1)
      | (Inr transactions, w1) \<Rightarrow>
          (case getLatestPrices env w1 of
             (Inl error, w2) \<Rightarrow> (Inl error, w2)
           | (Inr prices, w2) \<Rightarrow>
               (let priceData = (case prices of None \<Rightarrow> Map.empty | Some d \<Rightarrow> d);
                    matchingSwaps =
                      filter (\<lambda>swap. jge (swap_value priceData swap) minValueUsd) transactions
                in (Inr \<lparr>satisfied = length matchingSwaps > 0, matches = matchingSwaps\<rparr>, w2))))"

definition minValueSwap ::
  "env \<Rightarrow> jsnum \<Rightarrow> (world \<Rightarrow> (exn + transaction list) \<times> world) \<Rightarrow> world query" where
  "minValueSwap env minValueUsd getTransactions w =
     catch_unsatisfied (minValueSwap_body env minValueUsd getTransactions w)"


subsection \<open>firstNBuyers\<close>

text \<open>The comparator given to \<open>filteredSwaps.sort\<close>.\<close>

definition compare_swaps :: "transaction \<Rightarrow> transaction \<Rightarrow> int" where
  "compare_swaps a b =
     (if block_height a \<noteq> block_height b then block_height a - block_height b
      else block_time a - block_time b)"

text \<open>
  \<open>Array.prototype.sort\<close> is stable, and this comparator is a consistent one, so the
  sorted array is the one stable ordering of the input; insertion computes it.
\<close>

fun insert_swap :: "transaction \<Rightarrow> transaction list \<Rightarrow> transaction list" where
  "insert_swap a [] = [a]"
| "insert_swap a (b # bs) = (if compare_swaps a b \<le> 0 then a # b # bs else b # insert_swap a bs)"

definition sort_swaps :: "transaction list \<Rightarrow> transaction list" where
  "sort_swaps swaps = foldr insert_swap swaps []"

text \<open>
  The loop over the sorted swaps, with the set \<open>uniqueAddresses\<close> and the array
  \<open>firstNBuyers\<close> it mutates; the \<open>break\<close> ends it.
\<close>

fun collect_buyers ::
  "jsnum \<Rightarrow> transaction list \<Rightarrow> string set \<times> transaction list \<Rightarrow> string set \<times> transaction list" where
  "collect_buyers n [] (uniqueAddresses, buyers) = (uniqueAddresses, buyers)"
| "collect_buyers n (swap # rest) (uniqueAddresses, buyers) =
     (if user_address swap \<noteq> [] \<and> user_address swap \<notin> uniqueAddresses
      then (if jge (Fin (of_nat (length (buyers @ [swap])))) n
            then (insert (user_address swap) uniqueAddresses, buyers @ [swap])
            else collect_buyers n rest (insert (user_address swap) uniqueAddresses, buyers @ [swap]))
      else collect_buyers n rest (uniqueAddresses, buyers))"

text \<open>\<open>firstNBuyers\<close> from the sort on, given the swaps the filters left.\<close>

definition rank_buyers :: "jsnum \<Rightarrow> transaction list \<Rightarrow> validation_result" where
  "rank_buyers n filteredSwaps =
     (let buyers = snd (collect_buyers n (sort_swaps filteredSwaps) ({}, []))
      in \<lparr>satisfied = jge (Fin (of_nat (length buyers))) n, matches = buyers\<rparr>)"

definition firstNBuyers_body ::
  "env \<Rightarrow> string \<Rightarrow> jsnum \<Rightarrow> jsnum \<Rightarrow> int \<Rightarrow> world \<Rightarrow> (exn + validation_result) \<times> world" where
  "firstNBuyers_body env tokenPrincipal n minValueUsd startTime w =
     (case swappedFor env tokenPrincipal startTime None w of
        (Inl error, w1) \<Rightarrow> (Inl error, w1)
      | (Inr swapResult, w1) \<Rightarrow>
          (if \<not> satisfied swapResult then (Inr \<lparr>satisfied = False, matches = []\<rparr>, w1)
           else if jgt minValueUsd (Fin 0) then
             (case minValueSwap env minValueUsd (\<lambda>w'. (Inr (matches swapResult), w')) w1 of
                (Inl error, w2) \<Rightarrow> (Inl error, w2)
              | (Inr valueResult, w2) \<Rightarrow>
                  (if \<not> satisfied valueResult then (Inr \<lparr>satisfied = False, matches = []\<rparr>, w2)
                   else (Inr (rank_buyers n (matches valueResult)), w2)))
           else (Inr (rank_buyers n (matches swapResult)), w1)))"

definition firstNBuyers :: "env \<Rightarrow> string \<Rightarrow> jsnum \<Rightarrow> jsnum \<Rightarrow> int \<Rightarrow> world query" where
  "firstNBuyers env tokenPrincipal n minValueUsd startTime w =
     catch_unsatisfied (firstNBuyers_body env tokenPrincipal n minValueUsd startTime w)"

subsection \<open>holdsToken\<close>

text \<open>The loop over the token variations; the transfers are returned as transactions.\<close>

fun holdsToken_loop ::
  "env \<Rightarrow> string \<Rightarrow> string list \<Rightarrow> world \<Rightarrow> (exn + validation_result) \<times> world" where
  "holdsToken_loop env address [] w = (Inr \<lparr>satisfied = False, matches = []\<rparr>, w)"
| "holdsToken_loop env address (tokenVariant # rest) w =
     (case getTokenTransfers env address tokenVariant [(''limit'', PNum 100)] w of
        (Inl error, w1) \<Rightarrow> (Inl error, w1)
      | (Inr None, w1) \<Rightarrow> holdsToken_loop env address rest w1
      | (Inr (Some data), w1) \<Rightarrow>
          (if length data > 0 then (Inr \<lparr>satisfied = True, matches = data\<rparr>, w1)
           else holdsToken_loop env address rest w1))"

definition holdsToken_body ::
  "env \<Rightarrow> string \<Rightarrow> string \<Rightarrow> world \<Rightarrow> (exn + validation_result) \<times> world" where
  "holdsToken_body env address tokenPrincipal w =
     holdsToken_loop env address (normalizeTokenPrincipal tokenPrincipal) w"

definition holdsToken :: "env \<Rightarrow> string \<Rightarrow> string \<Rightarrow> world query" where
  "holdsToken env address tokenPrincipal w =
     catch_unsatisfied (holdsToken_body env address tokenPrincipal w)"


section \<open>Result store operations (db/queries.ts)\<close>

text \<open>
  Every query runs in a \<open>try\<close> that logs and rethrows: the operation throws when the
  database does, and otherwise reads or writes the tables. A statement the database
  refuses (a lost connection, a row with a missing value in a column that is not
  nullable) is a fault of the oracle.
\<close>

definition db_step :: "env \<Rightarrow> world \<Rightarrow> exn option \<times> world" where
  "db_step env w = (db_fault env (db_ops w), w\<lparr>db_ops := db_ops w + 1\<rparr>)"

definition getActiveQuests :: "env \<Rightarrow> world \<Rightarrow> (exn + quest list) \<times> world" where
  "getActiveQuests env w =
     (case db_step env w of
        (Some error, w1) \<Rightarrow> (Inl error, w1)
      | (None, w1) \<Rightarrow> (Inr (filter (\<lambda>q. quest_status q = Active) (quests w1)), w1))"

text \<open>
  \<open>orderBy(desc(validatedAt)).limit(1)\<close>: a row of the greatest \<open>validatedAt\<close>. Among
  rows of the same instant the query leaves the choice to the database; the model takes
  the one created first.
\<close>

fun latest_of :: "quest_validation list \<Rightarrow> quest_validation option" where
  "latest_of [] = None"
| "latest_of (v # vs) =
     (case latest_of vs of
        None \<Rightarrow> Some v
      | Some u \<Rightarrow> if validatedAt u > validatedAt v then Some u else Some v)"

definition getLatestQuestValidation ::
  "env \<Rightarrow> string \<Rightarrow> world \<Rightarrow> (exn + quest_validation option) \<times> world" where
  "getLatestQuestValidation env qid w =
     (case db_step env w of
        (Some error, w1) \<Rightarrow> (Inl error, w1)
      | (None, w1) \<Rightarrow> (Inr (latest_of (filter (\<lambda>v. questId v = qid) (validations w1))), w1))"

text \<open>The row is built (\<open>validatedAt: new Date()\<close>) before the insert runs.\<close>

definition createQuestValidation ::
  "env \<Rightarrow> string \<Rightarrow> criteria \<times> int \<Rightarrow> world \<Rightarrow> (exn + quest_validation) \<times> world" where
  "createQuestValidation env qid data w =
     (case date_now env w of (now, w1) \<Rightarrow>
        (case db_step env w1 of
           (Some error, w2) \<Rightarrow> (Inl error, w2)
         | (None, w2) \<Rightarrow>
             (let row = \<lparr>validation_id = length (validations w2), questId = qid,
                         validatedAt = now, status = Pending, validationData = data,
                         errorMessage = None, nextValidationAt = None, validAddresses = [],
                         processingTime = 0\<rparr>
              in (Inr row, w2\<lparr>validations := validations w2 @ [row]\<rparr>))))"

text \<open>\<open>updates\<close>: only the fields that are not \<open>undefined\<close> are set.\<close>

definition apply_updates ::
  "validation_status option \<Rightarrow> string option \<Rightarrow> string list option \<Rightarrow> int option \<Rightarrow> int option
     \<Rightarrow> quest_validation \<Rightarrow> quest_validation" where
  "apply_updates new_status new_error new_addresses new_time new_next v =
     v\<lparr>status := (case new_status of None \<Rightarrow> status v | Some x \<Rightarrow> x),
       errorMessage := (case new_error of None \<Rightarrow> errorMessage v | Some x \<Rightarrow> Some x),
       validAddresses := (case new_addresses of None \<Rightarrow> validAddresses v | Some x \<Rightarrow> x),
       processingTime := (case new_time of None \<Rightarrow> processingTime v | Some x \<Rightarrow> x),
       nextValidationAt := (case new_next of None \<Rightarrow> nextValidationAt v | Some x \<Rightarrow> Some x)\<rparr>"

definition updateQuestValidation ::
  "env \<Rightarrow> nat \<Rightarrow> validation_status option \<Rightarrow> string option \<Rightarrow> string list option \<Rightarrow> int option
     \<Rightarrow> int option \<Rightarrow> world \<Rightarrow> (exn + unit) \<times> world" where
  "updateQuestValidation env vid new_status new_error new_addresses new_time new_next w =
     (case db_step env w of
        (Some error, w1) \<Rightarrow> (Inl error, w1)
      | (None, w1) \<Rightarrow>
          (Inr (),
           w1\<lparr>validations :=
                 map (\<lambda>v. if validation_id v = vid
                           then apply_updates new_status new_error new_addresses new_time new_next v
                           else v)
                   (validations w1)\<rparr>))"

definition createQuestValidationResult ::
  "env \<Rightarrow> nat \<Rightarrow> string \<Rightarrow> bool \<Rightarrow> transaction \<Rightarrow> string \<Rightarrow> world \<Rightarrow> (exn + unit) \<times> world" where
  "createQuestValidationResult env vid address valid data ctype w =
     (case date_now env w of (now, w1) \<Rightarrow>
        (case db_step env w1 of
           (Some error, w2) \<Rightarrow> (Inl error, w2)
         | (None, w2) \<Rightarrow>
             (Inr (),
              w2\<lparr>results := results w2 @
                    [\<lparr>validationId = vid, resultUserAddress = address, isValid = valid,
                      resultData = data, resultValidatedAt = now, criteriaType = ctype\<rparr>]\<rparr>)))"

section \<open>Quest validation runner (quest/validator.ts)\<close>

definition VALIDATION_FREQUENCY_DEFAULT :: int where
  "VALIDATION_FREQUENCY_DEFAULT = 5 * 60 * 1000"

definition VALIDATION_FREQUENCY_ERROR :: int where
  "VALIDATION_FREQUENCY_ERROR = 15 * 60 * 1000"

definition VALIDATION_FREQUENCY_SUCCESS :: int where
  "VALIDATION_FREQUENCY_SUCCESS = 10 * 60 * 1000"

text \<open>
  The \<open>switch (criteria.type)\<close>: the validator each case constructs, or the error the
  default case throws. \<open>x || d\<close> on the parameters takes \<open>d\<close> for an absent or falsy \<open>x\<close>.
\<close>

definition build_validator :: "env \<Rightarrow> criteria \<Rightarrow> exn + world query" where
  "build_validator env c =
     (let p = criteria_params c in
      if criteria_type c = ''swappedFor'' then
        Inr (swappedFor env (param_tokenPrincipal p)
               (case param_startTime p of None \<Rightarrow> 0 | Some t \<Rightarrow> t) (param_endTime p))
      else if criteria_type c = ''firstNBuyers'' then
        Inr (firstNBuyers env (param_tokenPrincipal p) (num_or (param_numUsers p) (Fin 10))
               (num_or (param_minValueUsd p) (Fin 0))
               (case param_startTime p of None \<Rightarrow> 0 | Some t \<Rightarrow> t))
      else if criteria_type c = ''minValueSwap'' then
        Inr (minValueSwap env (num_or (param_minValueUsd p) (Fin 0)) (recentSwaps env))
      else if criteria_type c = ''holdsToken'' then
        Inr (holdsToken env (case param_userAddress p of None \<Rightarrow> [] | Some a \<Rightarrow> a)
               (param_tokenPrincipal p))
      else Inl (Error (''Unsupported criteria type: '' @ criteria_type c)))"

text \<open>
  The loop \<open>for (const address of processed.addresses)\<close>: one result row per match,
  with the address, \<open>isValid = true\<close> and the fields of the match
  (\<open>processValidationResult\<close>).
\<close>

fun save_results ::
  "env \<Rightarrow> nat \<Rightarrow> string \<Rightarrow> transaction list \<Rightarrow> world \<Rightarrow> (exn + unit) \<times> world" where
  "save_results env vid ctype [] w = (Inr (), w)"
| "save_results env vid ctype (m # ms) w =
     (case createQuestValidationResult env vid (user_address m) True m ctype w of
        (Inl error, w1) \<Rightarrow> (Inl error, w1)
      | (Inr u, w1) \<Rightarrow> save_results env vid ctype ms w1)"

text \<open>
  The inner \<open>try\<close> block: the switch, the validator's run, the result rows and the final
  update of the record with \<open>nextValidationAt = Date.now() + SUCCESS\<close>.
\<close>

definition validate_criteria ::
  "env \<Rightarrow> quest \<Rightarrow> nat \<Rightarrow> int \<Rightarrow> world \<Rightarrow> (exn + unit) \<times> world" where
  "validate_criteria env q vid started w =
     (case build_validator env (quest_criteria q) of
        Inl error \<Rightarrow> (Inl error, w)
      | Inr validator \<Rightarrow>
          (case validator w of
             (Inl error, w1) \<Rightarrow> (Inl error, w1)
           | (Inr validationResult, w1) \<Rightarrow>
               (case save_results env vid (criteria_type (quest_criteria q))
                       (matches validationResult) w1 of
                  (Inl error, w2) \<Rightarrow> (Inl error, w2)
                | (Inr u, w2) \<Rightarrow>
                    (case date_now env w2 of (t1, w3) \<Rightarrow>
                       (case date_now env w3 of (t2, w4) \<Rightarrow>
                          updateQuestValidation env vid
                            (Some (if satisfied validationResult then Success else Failed))
                            None
                            (Some (map user_address (matches validationResult)))
                            (Some (t2 - started))
                            (Some (t1 + VALIDATION_FREQUENCY_SUCCESS)) w4)))))"

text \<open>The inner \<open>catch\<close> block.\<close>

definition record_error :: "env \<Rightarrow> nat \<Rightarrow> int \<Rightarrow> exn \<Rightarrow> world \<Rightarrow> (exn + unit) \<times> world" where
  "record_error env vid started error w =
     (case date_now env w of (t1, w1) \<Rightarrow>
        (case date_now env w1 of (t2, w2) \<Rightarrow>
           updateQuestValidation env vid (Some Failed)
             (Some (case error of Error message \<Rightarrow> message
                    | NonError \<Rightarrow> ''Unknown error during validation''))
             None
             (Some (t2 - started))
             (Some (t1 + VALIDATION_FREQUENCY_ERROR)) w2))"

text \<open>
  \<open>validateSingleQuest\<close> from \<open>const startTime = Date.now()\<close> on: the outer \<open>try\<close>,
  whose \<open>catch\<close> only logs, around the creation of the record, the inner \<open>try\<close> and the
  inner \<open>catch\<close>.
\<close>

definition run_validation :: "env \<Rightarrow> quest \<Rightarrow> world \<Rightarrow> (exn + unit) \<times> world" where
  "run_validation env q w =
     (case date_now env w of (started, w1) \<Rightarrow>
        (case createQuestValidation env (quest_id q) (quest_criteria q, started) w1 of
           (Inl error, w2) \<Rightarrow> (Inr (), w2)
         | (Inr validation, w2) \<Rightarrow>
             (case validate_criteria env q (validation_id validation) started w2 of
                (Inr u, w3) \<Rightarrow> (Inr (), w3)
              | (Inl error, w3) \<Rightarrow>
                  (case record_error env (validation_id validation) started error w3 of
                     (r, w4) \<Rightarrow> (Inr (), w4)))))"

text \<open>
  The test at the head of \<open>validateSingleQuest\<close>: whether the quest is to be validated
  now. The clock is read only when the last validation has a \<open>nextValidationAt\<close>.
\<close>

definition is_due :: "env \<Rightarrow> quest_validation option \<Rightarrow> world \<Rightarrow> bool \<times> world" where
  "is_due env lastValidation w =
     (case lastValidation of
        None \<Rightarrow> (True, w)
      | Some v \<Rightarrow>
          (case nextValidationAt v of
             None \<Rightarrow> (True, w)
           | Some next_at \<Rightarrow>
               (case date_now env w of (now, w1) \<Rightarrow> (\<not> now < next_at, w1))))"

definition validateSingleQuest :: "env \<Rightarrow> quest \<Rightarrow> world \<Rightarrow> (exn + unit) \<times> world" where
  "validateSingleQuest env q w =
     (case getLatestQuestValidation env (quest_id q) w of
        (Inl error, w1) \<Rightarrow> (Inl error, w1)
      | (Inr lastValidation, w1) \<Rightarrow>
          (case is_due env lastValidation w1 of
             (False, w2) \<Rightarrow> (Inr (), w2)
           | (True, w2) \<Rightarrow> run_validation env q w2))"

text \<open>The loop of \<open>validateAllActiveQuests\<close>: a rejection of one call ends it.\<close>

fun validate_each :: "env \<Rightarrow> quest list \<Rightarrow> world \<Rightarrow> (exn + unit) \<times> world" where
  "validate_each env [] w = (Inr (), w)"
| "validate_each env (q # qs) w =
     (case validateSingleQuest env q w of
        (Inl error, w1) \<Rightarrow> (Inl error, w1)
      | (Inr u, w1) \<Rightarrow> validate_each env qs w1)"

definition validateAllActiveQuests :: "env \<Rightarrow> world \<Rightarrow> (exn + unit) \<times> world" where
  "validateAllActiveQuests env w =
     (case getActiveQuests env w of
        (Inl error, w1) \<Rightarrow> (Inl error, w1)
      | (Inr activeQuests, w1) \<Rightarrow> validate_each env activeQuests w1)"


section \<open>Reference definitions\<close>

text \<open>
  In the words of the specification: the first transaction of every address, in the
  order of the list; later transactions of an address already counted are ignored, and
  so is a transaction without an address.
\<close>

fun first_occurrences :: "transaction list \<Rightarrow> transaction list" where
  "first_occurrences [] = []"
| "first_occurrences (x # xs) =
     (if user_address x = [] then first_occurrences xs
      else x # first_occurrences (filter (\<lambda>y. user_address y \<noteq> user_address x) xs))"

text \<open>The tables and the count of database operations are the same in two worlds.\<close>

definition store_untouched :: "world \<Rightarrow> world \<Rightarrow> bool" where
  "store_untouched w w' \<longleftrightarrow>
     validations w' = validations w \<and> results w' = results w \<and> quests w' = quests w \<and>
     db_ops w' = db_ops w"

section \<open>Example inputs\<close>

text \<open>A query that resolves to a given result and touches nothing.\<close>

definition resolved :: "validation_result \<Rightarrow> 'w query" where
  "resolved r w = (Inr r, w)"

text \<open>A transaction without swap legs: id, address, block height, block time.\<close>

definition tx :: "string \<Rightarrow> string \<Rightarrow> int \<Rightarrow> int \<Rightarrow> transaction" where
  "tx i a h t =
     \<lparr>tx_id = i, user_address = a, block_height = h, block_time = t, swap_details = None\<rparr>"

text \<open>A swap leg, and a transaction with swap legs.\<close>

definition leg :: "string \<Rightarrow> jsnum \<Rightarrow> string \<Rightarrow> jsnum \<Rightarrow> swap_detail" where
  "leg ia x oa y = \<lparr>in_asset = ia, in_amount = x, out_asset = oa, out_amount = y\<rparr>"

definition swap_tx :: "string \<Rightarrow> string \<Rightarrow> int \<Rightarrow> int \<Rightarrow> swap_detail list \<Rightarrow> transaction" where
  "swap_tx i a h t legs =
     \<lparr>tx_id = i, user_address = a, block_height = h, block_time = t, swap_details = Some legs\<rparr>"

text \<open>A world in which nothing has happened yet.\<close>

definition initial_world :: world where
  "initial_world =
     \<lparr>requests = [], sleeps = [], ticks = 0, db_ops = 0, quests = [], validations = [],
      results = []\<rparr>"

text \<open>
  An environment whose upstream API answers every request: three swaps for the
  contract \<open>T\<close> (two of them end in \<open>T\<close>, one through a sub-token suffix), no swaps for
  any other contract, and a price for \<open>T\<close> only. The clock advances by a second per
  reading and the database never fails.
\<close>

definition market_env :: env where
  "market_env =
     \<lparr>clock = (\<lambda>k. 1700000000000 + 1000 * int k),
      fetch_transactions = (\<lambda>k req.
         if endpoint req = ''/swaps/contract/T''
         then Inr (Some [swap_tx ''1'' ''X'' 10 7 [leg ''A'' (Fin 5) ''T'' (Fin 1)],
                         swap_tx ''2'' ''Y'' 10 3 [leg ''A'' (Fin 5) ''B'' (Fin 1),
                                                leg ''B'' (Fin 1) ''T::t'' (Fin 3)],
                         swap_tx ''3'' ''Z'' 9 0 [leg ''T'' (Fin 5) ''A'' (Fin 1)]])
         else Inr (Some [])),
      fetch_prices = (\<lambda>k req. Inr (Some [''T'' \<mapsto> Fin 2])),
      db_fault = (\<lambda>k. None)\<rparr>"

text \<open>An environment whose upstream API fails every request.\<close>

definition offline_env :: env where
  "offline_env =
     \<lparr>clock = (\<lambda>k. 1700000000000 + 1000 * int k),
      fetch_transactions = (\<lambda>k req. Inl (Error ''fetch failed'')),
      fetch_prices = (\<lambda>k req. Inl (Error ''fetch failed'')),
      db_fault = (\<lambda>k. None)\<rparr>"

text \<open>A fetch that fails every time, each time with another error.\<close>

definition failing_fetch :: "nat \<Rightarrow> api_request \<Rightarrow> exn + transaction list option" where
  "failing_fetch k req =
     Inl (Error (if k = 0 then ''first failure'' else if k = 1 then ''second failure''
                 else ''third failure''))"

text \<open>A fetch that fails three times and succeeds from the fourth time on.\<close>

definition recovering_fetch :: "nat \<Rightarrow> api_request \<Rightarrow> exn + transaction list option" where
  "recovering_fetch k req =
     (if k = 0 then Inl (Error ''failure 1'') else if k = 1 then Inl (Error ''failure 2'')
      else if k = 2 then Inl (Error ''failure 3'') else Inr (Some []))"




text \<open>An active quest for the token \<open>T\<close> with a given id and criteria type.\<close>

definition example_quest :: "string \<Rightarrow> string \<Rightarrow> quest" where
  "example_quest qid ctype =
     \<lparr>quest_id = qid, title = ''quest'', quest_status = Active,
      quest_criteria =
        \<lparr>criteria_type = ctype,
         criteria_params =
           \<lparr>param_tokenPrincipal = ''T'', param_startTime = None, param_endTime = None,
            param_numUsers = None, param_minValueUsd = None, param_userAddress = None\<rparr>\<rparr>\<rparr>"

text \<open>An environment whose database fails its \<open>k\<close>-th operation (counted from 0) only.\<close>

definition db_failing_at :: "nat \<Rightarrow> env \<Rightarrow> env" where
  "db_failing_at k env =
     env\<lparr>db_fault := (\<lambda>i. if i = k then Some (Error ''connection lost'') else None)\<rparr>"

text \<open>A world with the given quests and no validation yet.\<close>

definition world_with :: "quest list \<Rightarrow> world" where
  "world_with qs = initial_world\<lparr>quests := qs\<rparr>"

text \<open>
  A world in which the quest \<open>q1\<close> has been validated, with the next validation due
  later than the first reading of the example clocks.
\<close>

definition validated_world :: world where
  "validated_world =
     initial_world
       \<lparr>quests := [example_quest ''q1'' ''swappedFor''],
        validations :=
          [\<lparr>validation_id = 0, questId = ''q1'', validatedAt = 1699999990000, status = Success,
            validationData = (quest_criteria (example_quest ''q1'' ''swappedFor''), 1699999989000),
            errorMessage = None, nextValidationAt = Some 1700000590000,
            validAddresses = [''X''], processingTime = 1000\<rparr>]\<rparr>"

text \<open>
  The record with the given id that a run creates for the given quest, when the clock
  starts at 1700000000000.
\<close>

definition pending_validation :: "nat \<Rightarrow> string \<Rightarrow> string \<Rightarrow> quest_validation" where
  "pending_validation vid qid ctype =
     \<lparr>validation_id = vid, questId = qid, validatedAt = 1700000001000, status = Pending,
      validationData = (quest_criteria (example_quest qid ctype), 1700000000000),
      errorMessage = None, nextValidationAt = None, validAddresses = [], processingTime = 0\<rparr>"

section \<open>Properties of the combinators\<close>

text \<open>
  C1 (as amended). When both operands resolve, \<open>and(L, R).execute()\<close> resolves to the
  matches of \<open>L\<close> that pair with some match of \<open>R\<close>, in the order of \<open>L\<close>, where two
  matches pair when they have the same non-empty \<open>tx_id\<close> or the same non-empty
  \<open>user_address\<close>; the address test does not look at the ids. \<open>satisfied\<close> is
  \<open>L.satisfied && R.satisfied\<close> and a non-empty intersection.
\<close>

theorem and_intersects_by_tx_id_or_address:
  assumes "left w = (Inr l, w1)" and "right w1 = (Inr r, w2)"
  shows "let both = filter (\<lambda>x. \<exists>y\<in>set (matches r).
                       (tx_id x \<noteq> [] \<and> tx_id y \<noteq> [] \<and> tx_id x = tx_id y) \<or>
                       (user_address x \<noteq> [] \<and> user_address y \<noteq> [] \<and>
                        user_address x = user_address y))
                     (matches l)
         in combinators_and left right w =
              (Inr \<lparr>satisfied = (satisfied l \<and> satisfied r \<and> both \<noteq> []), matches = both\<rparr>, w2)"
  using assms
  by (simp add: combinators_and_def execute_both_def and_result_def and_pairs_def list_ex_iff Let_def)

theorem and_intersects_witness:
  "combinators_and
     (resolved \<lparr>satisfied = True, matches = [tx ''a'' ''X'' 1 0, tx ''b'' ''Y'' 2 0, tx [] ''Z'' 3 0]\<rparr>)
     (resolved \<lparr>satisfied = True, matches = [tx ''b'' ''W'' 2 0, tx ''c'' ''Z'' 4 0]\<rparr>) () =
   (Inr \<lparr>satisfied = True, matches = [tx ''b'' ''Y'' 2 0, tx [] ''Z'' 3 0]\<rparr>, ())"
  using and_intersects_by_tx_id_or_address[of
      "resolved \<lparr>satisfied = True, matches = [tx ''a'' ''X'' 1 0, tx ''b'' ''Y'' 2 0, tx [] ''Z'' 3 0]\<rparr>"
      "()" "\<lparr>satisfied = True, matches = [tx ''a'' ''X'' 1 0, tx ''b'' ''Y'' 2 0, tx [] ''Z'' 3 0]\<rparr>" "()"
      "resolved \<lparr>satisfied = True, matches = [tx ''b'' ''W'' 2 0, tx ''c'' ''Z'' 4 0]\<rparr>"
      "\<lparr>satisfied = True, matches = [tx ''b'' ''W'' 2 0, tx ''c'' ''Z'' 4 0]\<rparr>" "()"]
  by (simp add: resolved_def tx_def Let_def)

text \<open>
  C1 as stated fails: two matches with distinct non-empty ids and the same address are
  paired, so the left one is a match of the conjunction.
\<close>

theorem and_pairs_on_shared_address_counterexample:
  "tx_id (tx ''a'' ''X'' 10 0) \<noteq> [] \<and> tx_id (tx ''b'' ''X'' 10 0) \<noteq> [] \<and>
   tx_id (tx ''a'' ''X'' 10 0) \<noteq> tx_id (tx ''b'' ''X'' 10 0) \<and>
   combinators_and (resolved \<lparr>satisfied = True, matches = [tx ''a'' ''X'' 10 0]\<rparr>)
     (resolved \<lparr>satisfied = True, matches = [tx ''b'' ''X'' 10 0]\<rparr>) () =
   (Inr \<lparr>satisfied = True, matches = [tx ''a'' ''X'' 10 0]\<rparr>, ())"
  by (simp add: combinators_and_def execute_both_def and_result_def and_pairs_def resolved_def tx_def)






section \<open>Properties of firstNBuyers\<close>

lemma compare_swaps_le:
  "compare_swaps a b \<le> 0 \<longleftrightarrow> (block_height a, block_time a) \<le> (block_height b, block_time b)"
  by (auto simp: compare_swaps_def less_eq_prod_def)

lemma insert_swap_insort:
  "insert_swap a bs = insort_key (\<lambda>t. (block_height t, block_time t)) a bs"
  by (induction bs) (simp_all add: compare_swaps_le)

lemma sort_swaps_sort_key:
  "sort_swaps swaps = sort_key (\<lambda>t. (block_height t, block_time t)) swaps"
proof -
  have "insert_swap = insort_key (\<lambda>t. (block_height t, block_time t))"
    by (intro ext) (rule insert_swap_insort)
  then show ?thesis by (simp add: sort_swaps_def sort_key_def)
qed

lemma sort_swaps_sorted:
  "sorted (map (\<lambda>t. (block_height t, block_time t)) (sort_swaps swaps))"
  by (simp add: sort_swaps_sort_key)

lemma sort_swaps_mset: "mset (sort_swaps swaps) = mset swaps"
  by (simp add: sort_swaps_sort_key)

lemma sort_swaps_stable:
  "filter (\<lambda>t. (block_height t, block_time t) = k) (sort_swaps swaps) =
   filter (\<lambda>t. (block_height t, block_time t) = k) swaps"
  by (simp add: sort_swaps_sort_key sort_key_stable)

lemma collect_buyers_take:
  assumes "length acc < k"
  shows "snd (collect_buyers (Fin (of_nat k)) xs (S, acc)) =
         acc @ take (k - length acc) (first_occurrences (filter (\<lambda>y. user_address y \<notin> S) xs))"
  using assms
proof (induction xs arbitrary: S acc)
  case Nil
  then show ?case by simp
next
  case (Cons x xs)
  have ff: "filter (\<lambda>y. user_address y \<noteq> user_address x) (filter (\<lambda>y. user_address y \<notin> S) xs) =
            filter (\<lambda>y. user_address y \<notin> insert (user_address x) S) xs"
    by (simp add: conj_commute)
  show ?case
  proof (cases "user_address x \<noteq> [] \<and> user_address x \<notin> S")
    case True
    show ?thesis
    proof (cases "k \<le> length acc + 1")
      case True
      with Cons.prems have "k - length acc = 1" by simp
      with True \<open>user_address x \<noteq> [] \<and> user_address x \<notin> S\<close> show ?thesis by simp
    next
      case False
      then have lt: "length (acc @ [x]) < k" by simp
      have "k - length acc = Suc (k - length (acc @ [x]))" using False by simp
      with Cons.IH[OF lt, of "insert (user_address x) S"] False
        \<open>user_address x \<noteq> [] \<and> user_address x \<notin> S\<close> ff
      show ?thesis by simp
    qed
  next
    case False
    with Cons.IH[OF Cons.prems, of S] show ?thesis by auto
  qed
qed

lemma collect_buyers_take_some:
  "\<exists>j. snd (collect_buyers n xs (S, acc)) =
         acc @ take j (first_occurrences (filter (\<lambda>y. user_address y \<notin> S) xs))"
proof (induction xs arbitrary: S acc)
  case Nil
  then show ?case by simp
next
  case (Cons x xs)
  have ff: "filter (\<lambda>y. user_address y \<noteq> user_address x) (filter (\<lambda>y. user_address y \<notin> S) xs) =
            filter (\<lambda>y. user_address y \<notin> insert (user_address x) S) xs"
    by (simp add: conj_commute)
  show ?case
  proof (cases "user_address x \<noteq> [] \<and> user_address x \<notin> S")
    case True
    show ?thesis
    proof (cases "jge (Fin (of_nat (length (acc @ [x])))) n")
      case True
      with \<open>user_address x \<noteq> [] \<and> user_address x \<notin> S\<close> show ?thesis
        by (intro exI[of _ 1]) simp
    next
      case False
      from Cons.IH[of "insert (user_address x) S" "acc @ [x]"] obtain j where
        "snd (collect_buyers n xs (insert (user_address x) S, acc @ [x])) =
           (acc @ [x]) @ take j (first_occurrences (filter (\<lambda>y. user_address y \<notin> insert (user_address x) S) xs))"
        by blast
      with False \<open>user_address x \<noteq> [] \<and> user_address x \<notin> S\<close> ff show ?thesis
        by (intro exI[of _ "Suc j"]) simp
    qed
  next
    case False
    with Cons.IH[of S acc] show ?thesis by auto
  qed
qed

lemma first_occurrences_set: "set (first_occurrences xs) \<subseteq> set xs"
  by (induction xs rule: first_occurrences.induct) auto

lemma first_occurrences_distinct: "distinct (map user_address (first_occurrences xs))"
proof (induction xs rule: first_occurrences.induct)
  case 1
  then show ?case by simp
next
  case (2 x xs)
  have "user_address x \<notin> user_address ` set (first_occurrences (filter (\<lambda>y. user_address y \<noteq> user_address x) xs))"
    using first_occurrences_set[of "filter (\<lambda>y. user_address y \<noteq> user_address x) xs"] by auto
  with 2 show ?case by auto
qed

lemma first_occurrences_subseq: "subseq (first_occurrences xs) xs"
proof (induction xs rule: first_occurrences.induct)
  case 1
  then show ?case by simp
next
  case (2 x xs)
  have "subseq (filter (\<lambda>y. user_address y \<noteq> user_address x) xs) xs" by simp
  with 2 show ?case by (auto intro: subseq_order.trans)
qed

lemma first_occurrences_first:
  "m \<in> set (first_occurrences xs) \<Longrightarrow>
     user_address m \<noteq> [] \<and> find (\<lambda>x. user_address x = user_address m) xs = Some m"
proof (induction xs rule: first_occurrences.induct)
  case 1
  then show ?case by simp
next
  case (2 x xs)
  show ?case
  proof (cases "user_address x = []")
    case True
    with 2 show ?thesis by auto
  next
    case False
    show ?thesis
    proof (cases "m = x")
      case True
      with False show ?thesis by simp
    next
      case False
      with 2 \<open>user_address x \<noteq> []\<close>
      have in': "m \<in> set (first_occurrences (filter (\<lambda>y. user_address y \<noteq> user_address x) xs))" by simp
      then have ne: "user_address m \<noteq> user_address x"
        using first_occurrences_set[of "filter (\<lambda>y. user_address y \<noteq> user_address x) xs"] by auto
      from 2 \<open>user_address x \<noteq> []\<close> in'
      have a: "user_address m \<noteq> []"
        and f: "find (\<lambda>y. user_address y = user_address m) (filter (\<lambda>y. user_address y \<noteq> user_address x) xs) = Some m"
        by auto
      have "find (\<lambda>y. user_address y = user_address m) (filter (\<lambda>y. user_address y \<noteq> user_address x) xs)
            = find (\<lambda>y. user_address y = user_address m) xs"
        using ne by (induction xs) auto
      with a f ne show ?thesis by auto
    qed
  qed
qed

lemma first_occurrences_addresses:
  "user_address ` set (first_occurrences xs) = {a \<in> user_address ` set xs. a \<noteq> []}"
proof (induction xs rule: first_occurrences.induct)
  case 1
  then show ?case by simp
next
  case (2 x xs)
  then show ?case by (cases "user_address x = []") auto
qed

lemma sort_swaps_sorted_wrt:
  "sorted_wrt (\<lambda>a b. block_height a < block_height b \<or>
                       (block_height a = block_height b \<and> block_time a \<le> block_time b))
     (sort_swaps swaps)"
proof -
  have "sorted_wrt (\<lambda>a b. (block_height a, block_time a) \<le> (block_height b, block_time b)) (sort_swaps swaps)"
    using sort_swaps_sorted[of swaps] by (simp add: sorted_map)
  then show ?thesis
    by (rule sorted_wrt_mono_rel[rotated]) (auto simp: less_eq_prod_def)
qed

lemma rank_buyers_matches:
  "1 \<le> k \<Longrightarrow> matches (rank_buyers (Fin (of_nat k)) candidates) =
                 take k (first_occurrences (sort_swaps candidates))"
  using collect_buyers_take[of "[]" k "sort_swaps candidates" "{}"]
  by (simp add: rank_buyers_def Let_def)

lemma rank_buyers_matches_some:
  "\<exists>j. matches (rank_buyers n candidates) = take j (first_occurrences (sort_swaps candidates))"
  using collect_buyers_take_some[of n "sort_swaps candidates" "{}" "[]"]
  by (simp add: rank_buyers_def Let_def)

lemma rank_buyers_satisfied:
  "satisfied (rank_buyers n candidates) =
     jge (Fin (of_nat (length (matches (rank_buyers n candidates))))) n"
  by (simp add: rank_buyers_def Let_def)

lemma catch_unsatisfied_resolves: "\<exists>r w'. catch_unsatisfied outcome = (Inr r, w')"
  by (auto simp: catch_unsatisfied_def split: prod.splits sum.splits)

lemma firstNBuyers_cases:
  "\<exists>r w'. firstNBuyers env token n minV start w = (Inr r, w') \<and>
     (r = \<lparr>satisfied = False, matches = []\<rparr> \<or> (\<exists>candidates. r = rank_buyers n candidates))"
  by (auto simp: firstNBuyers_def firstNBuyers_body_def catch_unsatisfied_def
      split: prod.splits sum.splits)

text \<open>
  C3 (as amended). For every whole number \<open>n \<ge> 1\<close>: \<open>firstNBuyers\<close> always resolves,
  either unsatisfied with no match or with the ranking of its candidate swaps: the
  matches of \<open>swappedFor\<close>, narrowed by \<open>minValueSwap\<close> when a minimum value is asked. The
  ranking of a candidate list sorts it by block height, then block time (a reordering of
  the candidates that keeps transactions of equal height and time in their order), takes
  the first occurrence of every address in that order and stops at \<open>n\<close> of them; \<open>satisfied\<close> says whether \<open>n\<close> were found. So there are at most \<open>n\<close>
  matches, with pairwise distinct addresses, each the first transaction of its address
  in the sorted order. For block heights 10, 10, 20 with addresses X, X, Y and \<open>n = 2\<close>
  the matches are the earlier of the two transactions of X, then the one of Y.
\<close>

theorem firstNBuyers_ranks_first_buyers:
  assumes "1 \<le> k"
  shows "(\<exists>r w'. firstNBuyers env token (Fin (of_nat k)) minV start w = (Inr r, w') \<and>
            (r = \<lparr>satisfied = False, matches = []\<rparr> \<or>
             (\<exists>candidates. r = rank_buyers (Fin (of_nat k)) candidates))) \<and>
         (swappedFor env token start None w = (Inr found, w1) \<and> satisfied found \<and>
          \<not> jgt minV (Fin 0) \<longrightarrow>
          firstNBuyers env token (Fin (of_nat k)) minV start w =
            (Inr (rank_buyers (Fin (of_nat k)) (matches found)), w1)) \<and>
         (swappedFor env token start None w = (Inr found, w1) \<and> satisfied found \<and>
          jgt minV (Fin 0) \<and>
          minValueSwap env minV (\<lambda>w'. (Inr (matches found), w')) w1 = (Inr valued, w2) \<and>
          satisfied valued \<longrightarrow>
          firstNBuyers env token (Fin (of_nat k)) minV start w =
            (Inr (rank_buyers (Fin (of_nat k)) (matches valued)), w2)) \<and>
         (let ordered = sort_swaps candidates; r = rank_buyers (Fin (of_nat k)) candidates in
            sorted_wrt (\<lambda>a b. block_height a < block_height b \<or>
                           (block_height a = block_height b \<and> block_time a \<le> block_time b)) ordered \<and>
            mset ordered = mset candidates \<and>
            (\<forall>key. filter (\<lambda>t. (block_height t, block_time t) = key) ordered =
                   filter (\<lambda>t. (block_height t, block_time t) = key) candidates) \<and>
            matches r = take k (first_occurrences ordered) \<and>
            satisfied r = (k \<le> length (matches r)) \<and>
            length (matches r) \<le> k \<and>
            distinct (map user_address (matches r)) \<and>
            (\<forall>m\<in>set (matches r). user_address m \<noteq> [] \<and>
                find (\<lambda>x. user_address x = user_address m) ordered = Some m)) \<and>
         (k = 2 \<and> block_height a = 10 \<and> block_height b = 10 \<and> block_height c = 20 \<and>
          user_address a = X \<and> user_address b = X \<and> user_address c = Y \<and>
          X \<noteq> [] \<and> Y \<noteq> [] \<and> X \<noteq> Y \<longrightarrow>
          matches (rank_buyers (Fin (of_nat k)) [a, b, c]) =
            [if block_time a \<le> block_time b then a else b, c])"
proof (intro conjI)
  show "\<exists>r w'. firstNBuyers env token (Fin (of_nat k)) minV start w = (Inr r, w') \<and>
            (r = \<lparr>satisfied = False, matches = []\<rparr> \<or>
             (\<exists>candidates. r = rank_buyers (Fin (of_nat k)) candidates))"
    by (rule firstNBuyers_cases)
next
  show "swappedFor env token start None w = (Inr found, w1) \<and> satisfied found \<and>
          \<not> jgt minV (Fin 0) \<longrightarrow>
          firstNBuyers env token (Fin (of_nat k)) minV start w =
            (Inr (rank_buyers (Fin (of_nat k)) (matches found)), w1)"
    by (simp add: firstNBuyers_def firstNBuyers_body_def catch_unsatisfied_def)
next
  show "swappedFor env token start None w = (Inr found, w1) \<and> satisfied found \<and>
          jgt minV (Fin 0) \<and>
          minValueSwap env minV (\<lambda>w'. (Inr (matches found), w')) w1 = (Inr valued, w2) \<and>
          satisfied valued \<longrightarrow>
          firstNBuyers env token (Fin (of_nat k)) minV start w =
            (Inr (rank_buyers (Fin (of_nat k)) (matches valued)), w2)"
    by (simp add: firstNBuyers_def firstNBuyers_body_def catch_unsatisfied_def)
next
  have m: "matches (rank_buyers (Fin (of_nat k)) candidates) =
           take k (first_occurrences (sort_swaps candidates))"
    using assms by (rule rank_buyers_matches)
  have d: "distinct (map user_address (take k (first_occurrences (sort_swaps candidates))))"
    using first_occurrences_distinct[of "sort_swaps candidates"]
    by (simp add: take_map[symmetric] distinct_take)
  have f: "\<forall>m\<in>set (take k (first_occurrences (sort_swaps candidates))). user_address m \<noteq> [] \<and>
                find (\<lambda>x. user_address x = user_address m) (sort_swaps candidates) = Some m"
    using first_occurrences_first[of _ "sort_swaps candidates"] by (meson in_set_takeD)
  show "let ordered = sort_swaps candidates; r = rank_buyers (Fin (of_nat k)) candidates in
            sorted_wrt (\<lambda>a b. block_height a < block_height b \<or>
                           (block_height a = block_height b \<and> block_time a \<le> block_time b)) ordered \<and>
            mset ordered = mset candidates \<and>
            (\<forall>key. filter (\<lambda>t. (block_height t, block_time t) = key) ordered =
                   filter (\<lambda>t. (block_height t, block_time t) = key) candidates) \<and>
            matches r = take k (first_occurrences ordered) \<and>
            satisfied r = (k \<le> length (matches r)) \<and>
            length (matches r) \<le> k \<and>
            distinct (map user_address (matches r)) \<and>
            (\<forall>m\<in>set (matches r). user_address m \<noteq> [] \<and>
                find (\<lambda>x. user_address x = user_address m) ordered = Some m)"
    unfolding Let_def
    using sort_swaps_sorted_wrt[of candidates] sort_swaps_mset[of candidates] m d f
      rank_buyers_satisfied[of "Fin (of_nat k)" candidates] sort_swaps_stable[of _ candidates]
    by simp
next
  show "k = 2 \<and> block_height a = 10 \<and> block_height b = 10 \<and> block_height c = 20 \<and>
          user_address a = X \<and> user_address b = X \<and> user_address c = Y \<and>
          X \<noteq> [] \<and> Y \<noteq> [] \<and> X \<noteq> Y \<longrightarrow>
          matches (rank_buyers (Fin (of_nat k)) [a, b, c]) =
            [if block_time a \<le> block_time b then a else b, c]"
  proof
    assume h: "k = 2 \<and> block_height a = 10 \<and> block_height b = 10 \<and> block_height c = 20 \<and>
          user_address a = X \<and> user_address b = X \<and> user_address c = Y \<and>
          X \<noteq> [] \<and> Y \<noteq> [] \<and> X \<noteq> Y"
    then have "matches (rank_buyers (Fin (of_nat k)) [a, b, c]) =
           take 2 (first_occurrences (sort_swaps [a, b, c]))"
      using rank_buyers_matches[of k "[a, b, c]"] by simp
    with h show "matches (rank_buyers (Fin (of_nat k)) [a, b, c]) =
            [if block_time a \<le> block_time b then a else b, c]"
      by (auto simp: sort_swaps_def compare_swaps_def)
  qed
qed

theorem firstNBuyers_ranks_witness:
  "(1::nat) \<le> 2 \<and>
   fst (firstNBuyers market_env ''T'' (Fin 2) (Fin 0) 0 initial_world) =
     Inr \<lparr>satisfied = True,
          matches = [swap_tx ''2'' ''Y'' 10 3 [leg ''A'' (Fin 5) ''B'' (Fin 1),
                                          leg ''B'' (Fin 1) ''T::t'' (Fin 3)],
                     swap_tx ''1'' ''X'' 10 7 [leg ''A'' (Fin 5) ''T'' (Fin 1)]]\<rparr> \<and>
   rank_buyers (Fin 2) [tx ''1'' ''X'' 10 7, tx ''2'' ''X'' 10 3, tx ''3'' ''Y'' 20 0] =
     \<lparr>satisfied = True, matches = [tx ''2'' ''X'' 10 3, tx ''3'' ''Y'' 20 0]\<rparr>"
proof -
  have run: "fst (firstNBuyers market_env ''T'' (Fin 2) (Fin 0) 0 initial_world) =
     Inr \<lparr>satisfied = True,
          matches = [swap_tx ''2'' ''Y'' 10 3 [leg ''A'' (Fin 5) ''B'' (Fin 1),
                                          leg ''B'' (Fin 1) ''T::t'' (Fin 3)],
                     swap_tx ''1'' ''X'' 10 7 [leg ''A'' (Fin 5) ''T'' (Fin 1)]]\<rparr>"
    by code_simp
  have rank: "rank_buyers (Fin 2) [tx ''1'' ''X'' 10 7, tx ''2'' ''X'' 10 3, tx ''3'' ''Y'' 20 0] =
     \<lparr>satisfied = True, matches = [tx ''2'' ''X'' 10 3, tx ''3'' ''Y'' 20 0]\<rparr>"
    by code_simp
  from firstNBuyers_ranks_first_buyers[where k = 2 and env = market_env and token = "''T''"
      and minV = "Fin 0" and start = 0 and w = initial_world
      and candidates = "[tx ''1'' ''X'' 10 7, tx ''2'' ''X'' 10 3, tx ''3'' ''Y'' 20 0]"
      and a = "tx ''1'' ''X'' 10 7" and b = "tx ''2'' ''X'' 10 3" and c = "tx ''3'' ''Y'' 20 0"
      and X = "''X''" and Y = "''Y''"]
    run rank
  show ?thesis by simp
qed

text \<open>
  C3 as stated fails for \<open>n = 0\<close>, and for every \<open>n\<close> below 1: the test
  \<open>firstNBuyers.length >= n\<close> comes after the push, so the first buyer is returned, one
  match more than \<open>n\<close>.
\<close>

theorem firstNBuyers_zero_counterexample:
  "fst (firstNBuyers market_env ''T'' (Fin 0) (Fin 0) 0 initial_world) =
     Inr \<lparr>satisfied = True,
          matches = [swap_tx ''2'' ''Y'' 10 3 [leg ''A'' (Fin 5) ''B'' (Fin 1),
                                             leg ''B'' (Fin 1) ''T::t'' (Fin 3)]]\<rparr> \<and>
   fst (firstNBuyers market_env ''T'' (Fin (- 1)) (Fin 0) 0 initial_world) =
     Inr \<lparr>satisfied = True,
          matches = [swap_tx ''2'' ''Y'' 10 3 [leg ''A'' (Fin 5) ''B'' (Fin 1),
                                             leg ''B'' (Fin 1) ''T::t'' (Fin 3)]]\<rparr>"
  by code_simp

section \<open>Properties of the data client\<close>

text \<open>
  When every attempt throws, the loop makes \<open>maxRetries\<close> attempts, sleeps \<open>2 ^ k * 100\<close>
  milliseconds after the \<open>k\<close>-th failure but not after the last, and throws what the last
  attempt threw.
\<close>

lemma request_loop_all_fail:
  assumes "attempts < maxRetries config"
    and "\<forall>i < maxRetries config - attempts. \<exists>e. do_fetch (length (requests w) + i) = Inl e"
  shows "request_loop config do_fetch req attempts w =
           (do_fetch (length (requests w) + (maxRetries config - attempts - 1)),
            w\<lparr>requests := requests w @ replicate (maxRetries config - attempts) req,
              sleeps := sleeps w @ map (\<lambda>k. 2 ^ k * 100) [attempts + 1 ..< maxRetries config]\<rparr>)"
  using assms
proof (induction config do_fetch req attempts w rule: request_loop.induct)
  case (1 config do_fetch req attempts w)
  from "1.prems" obtain e where e: "do_fetch (length (requests w)) = Inl e"
    by (metis add.right_neutral zero_less_diff)
  show ?case
  proof (cases "attempts + 1 \<ge> maxRetries config")
    case True
    with "1.prems" have "maxRetries config - attempts = 1" by simp
    with e True "1.prems"(1) show ?thesis
      by (subst request_loop.simps) simp
  next
    case False
    let ?w = "w\<lparr>requests := requests w @ [req], sleeps := sleeps w @ [2 ^ (attempts + 1) * 100]\<rparr>"
    have lt: "attempts + 1 < maxRetries config" using False by simp
    have all: "\<forall>i < maxRetries config - (attempts + 1). \<exists>e. do_fetch (length (requests ?w) + i) = Inl e"
    proof (intro allI impI)
      fix i assume "i < maxRetries config - (attempts + 1)"
      then have "Suc i < maxRetries config - attempts" by simp
      with "1.prems"(2) have "\<exists>e. do_fetch (length (requests w) + Suc i) = Inl e" by blast
      then show "\<exists>e. do_fetch (length (requests ?w) + i) = Inl e" by simp
    qed
    have ih: "request_loop config do_fetch req (attempts + 1) ?w =
           (do_fetch (length (requests ?w) + (maxRetries config - (attempts + 1) - 1)),
            ?w\<lparr>requests := requests ?w @ replicate (maxRetries config - (attempts + 1)) req,
              sleeps := sleeps ?w @ map (\<lambda>k. 2 ^ k * 100) [attempts + 1 + 1 ..< maxRetries config]\<rparr>)"
      using "1.IH"[OF "1.prems"(1) e False lt all] .
    have idx: "length (requests ?w) + (maxRetries config - (attempts + 1) - 1) =
               length (requests w) + (maxRetries config - attempts - 1)"
      using lt by simp
    have rep: "[req] @ replicate (maxRetries config - (attempts + 1)) req =
               replicate (maxRetries config - attempts) req"
      using lt by (metis Suc_diff_Suc Suc_eq_plus1 add_lessD1 append_Cons append_Nil replicate_Suc)
    have upt: "[attempts + 1 ..< maxRetries config] = (attempts + 1) # [attempts + 1 + 1 ..< maxRetries config]"
      using lt by (simp add: upt_conv_Cons)
    show ?thesis
      apply (subst request_loop.simps)
      using e False "1.prems"(1) ih idx rep upt
      by simp
  qed
qed

text \<open>
  C7 (as amended). With the default configuration, a request whose attempts all throw (a
  network failure or a response that is not 2xx) is attempted 3 times in all, the first
  attempt and two retries; the delay after the \<open>k\<close>-th failed attempt is \<open>100 * 2 ^ k\<close>
  milliseconds for \<open>k\<close> = 1, 2 (200, then 400) and there is none after the third; after the
  third failure the request fails with the error of that last attempt, as it was thrown.
\<close>

theorem request_retries_then_fails:
  assumes "fetcher (length (requests w)) req = Inl e0"
      and "fetcher (length (requests w) + 1) req = Inl e1"
      and "fetcher (length (requests w) + 2) req = Inl e2"
  shows "request DEFAULT_CONFIG fetcher req w =
           (Inl e2, w\<lparr>requests := requests w @ [req, req, req],
                     sleeps := sleeps w @ [2 ^ 1 * 100, 2 ^ 2 * 100]\<rparr>)"
  using assms by (simp add: request_def DEFAULT_CONFIG_def)

theorem request_retries_witness:
  "request DEFAULT_CONFIG failing_fetch \<lparr>endpoint = ''/swaps'', verb = GET, params = []\<rparr>
     initial_world =
   (Inl (Error ''third failure''),
    initial_world
      \<lparr>requests := [\<lparr>endpoint = ''/swaps'', verb = GET, params = []\<rparr>,
                    \<lparr>endpoint = ''/swaps'', verb = GET, params = []\<rparr>,
                    \<lparr>endpoint = ''/swaps'', verb = GET, params = []\<rparr>],
       sleeps := [200, 400]\<rparr>)"
  using request_retries_then_fails[of failing_fetch initial_world
      "\<lparr>endpoint = ''/swaps'', verb = GET, params = []\<rparr>"
      "Error ''first failure''" "Error ''second failure''" "Error ''third failure''"]
  by (simp add: failing_fetch_def initial_world_def)

text \<open>
  C7 as stated fails on the number of retries and on the first delay: there is no third
  retry. A fetch that would succeed at the fourth attempt is never made a fourth time;
  the request fails after three attempts with the error of the third, having slept 200
  and 400 milliseconds and never 100.
\<close>

theorem request_third_retry_counterexample:
  "recovering_fetch 3 \<lparr>endpoint = ''/swaps'', verb = GET, params = []\<rparr> = Inr (Some []) \<and>
   request DEFAULT_CONFIG recovering_fetch \<lparr>endpoint = ''/swaps'', verb = GET, params = []\<rparr>
     initial_world =
   (Inl (Error ''failure 3''),
    initial_world
      \<lparr>requests := [\<lparr>endpoint = ''/swaps'', verb = GET, params = []\<rparr>,
                    \<lparr>endpoint = ''/swaps'', verb = GET, params = []\<rparr>,
                    \<lparr>endpoint = ''/swaps'', verb = GET, params = []\<rparr>],
       sleeps := [200, 400]\<rparr>)"
  by code_simp

section \<open>Properties of the validator primitives\<close>

lemma catch_unsatisfied_never_rejects:
  "\<exists>r w'. catch_unsatisfied outcome = (Inr r, w') \<and>
     (\<forall>error w1. outcome = (Inl error, w1) \<longrightarrow> r = \<lparr>satisfied = False, matches = []\<rparr> \<and> w' = w1)"
  by (cases outcome; cases "fst outcome") (auto simp: catch_unsatisfied_def)

text \<open>
  C10. Each of the four primitives always resolves: whatever its \<open>try\<close> block does, the
  query returns a result, and when the block throws (a request that failed after its
  retries, a date out of range, an error of a supplied \<open>getTransactions\<close>) the result is
  \<open>{ satisfied: false, matches: [] }\<close>.
\<close>

theorem primitives_never_reject:
  "(\<exists>r w'. swappedFor env token start end_at w = (Inr r, w') \<and>
      (\<forall>error w1. swappedFor_body env token start end_at w = (Inl error, w1) \<longrightarrow>
         r = \<lparr>satisfied = False, matches = []\<rparr> \<and> w' = w1)) \<and>
   (\<exists>r w'. minValueSwap env minV getTransactions w = (Inr r, w') \<and>
      (\<forall>error w1. minValueSwap_body env minV getTransactions w = (Inl error, w1) \<longrightarrow>
         r = \<lparr>satisfied = False, matches = []\<rparr> \<and> w' = w1)) \<and>
   (\<exists>r w'. firstNBuyers env token n minV start w = (Inr r, w') \<and>
      (\<forall>error w1. firstNBuyers_body env token n minV start w = (Inl error, w1) \<longrightarrow>
         r = \<lparr>satisfied = False, matches = []\<rparr> \<and> w' = w1)) \<and>
   (\<exists>r w'. holdsToken env address token w = (Inr r, w') \<and>
      (\<forall>error w1. holdsToken_body env address token w = (Inl error, w1) \<longrightarrow>
         r = \<lparr>satisfied = False, matches = []\<rparr> \<and> w' = w1))"
  unfolding swappedFor_def minValueSwap_def firstNBuyers_def holdsToken_def
  by (intro conjI catch_unsatisfied_never_rejects)

theorem primitives_never_reject_witness:
  "fst (swappedFor_body offline_env ''T'' 0 None initial_world) = Inl (Error ''fetch failed'') \<and>
   fst (swappedFor offline_env ''T'' 0 None initial_world) =
     Inr \<lparr>satisfied = False, matches = []\<rparr> \<and>
   fst (minValueSwap_body offline_env (Fin 1) (recentSwaps offline_env) initial_world) =
     Inl (Error ''fetch failed'') \<and>
   fst (minValueSwap offline_env (Fin 1) (recentSwaps offline_env) initial_world) =
     Inr \<lparr>satisfied = False, matches = []\<rparr> \<and>
   fst (firstNBuyers offline_env ''T'' (Fin 2) (Fin 0) 0 initial_world) =
     Inr \<lparr>satisfied = False, matches = []\<rparr> \<and>
   fst (holdsToken_body offline_env ''X'' ''T'' initial_world) = Inl (Error ''fetch failed'') \<and>
   fst (holdsToken offline_env ''X'' ''T'' initial_world) =
     Inr \<lparr>satisfied = False, matches = []\<rparr>"
proof -
  have e1: "fst (swappedFor_body offline_env ''T'' 0 None initial_world) =
              Inl (Error ''fetch failed'')"
    by code_simp
  have e2: "fst (minValueSwap_body offline_env (Fin 1) (recentSwaps offline_env) initial_world) =
              Inl (Error ''fetch failed'')"
    by code_simp
  have e3: "fst (firstNBuyers offline_env ''T'' (Fin 2) (Fin 0) 0 initial_world) =
              Inr \<lparr>satisfied = False, matches = []\<rparr>"
    by code_simp
  have e4: "fst (holdsToken_body offline_env ''X'' ''T'' initial_world) =
              Inl (Error ''fetch failed'')"
    by code_simp
  from primitives_never_reject[where env = offline_env and token = "''T''" and start = 0
      and end_at = None and w = initial_world and minV = "Fin 1"
      and getTransactions = "recentSwaps offline_env" and n = "Fin 2" and address = "''X''"]
  have "fst (swappedFor offline_env ''T'' 0 None initial_world) =
          Inr \<lparr>satisfied = False, matches = []\<rparr> \<and>
        fst (minValueSwap offline_env (Fin 1) (recentSwaps offline_env) initial_world) =
          Inr \<lparr>satisfied = False, matches = []\<rparr> \<and>
        fst (holdsToken offline_env ''X'' ''T'' initial_world) =
          Inr \<lparr>satisfied = False, matches = []\<rparr>"
    using e1 e2 e4
    by (metis fst_conv prod.collapse)
  with e1 e2 e3 e4 show ?thesis by simp
qed



lemma split_head_prefix: "split_head s = s \<or> (\<exists>rest. s = split_head s @ ''::'' @ rest)"
proof (induction s)
  case Nil
  then show ?case by simp
next
  case (Cons c cs)
  show ?case
  proof (cases "prefix ''::'' (c # cs)")
    case True
    then show ?thesis by (auto simp: prefix_def)
  next
    case False
    with Cons show ?thesis by auto
  qed
qed

lemma split_head_no_separator: "\<not> str_includes (split_head s) ''::''"
proof (induction s)
  case Nil
  then show ?case by simp
next
  case (Cons c cs)
  show ?case
  proof (cases "prefix ''::'' (c # cs)")
    case True
    then have "split_head (c # cs) = []" by (simp only: split_head.simps if_True)
    then show ?thesis by simp
  next
    case False
    have "\<not> prefix ''::'' (c # split_head cs)"
    proof
      assume p: "prefix ''::'' (c # split_head cs)"
      then have c: "c = CHR '':''" and "prefix '':'' (split_head cs)" by auto
      then obtain r where r: "split_head cs = CHR '':'' # r"
        by (cases "split_head cs") auto
      then have "cs \<noteq> []" by auto
      then obtain d ds where cs: "cs = d # ds" by (cases cs) auto
      with r have "d = CHR '':''" by (auto split: if_splits)
      with c cs False show False by simp
    qed
    with Cons False show ?thesis by simp
  qed
qed
























section \<open>What the primitives leave untouched\<close>

text \<open>
  The data client and the four primitives read the clock and call \<open>fetch\<close>; they never
  touch the result store.
\<close>

lemma store_untouched_refl: "store_untouched w w"
  by (simp add: store_untouched_def)

lemma store_untouched_trans:
  "store_untouched w w1 \<Longrightarrow> store_untouched w1 w2 \<Longrightarrow> store_untouched w w2"
  by (simp add: store_untouched_def)

lemma request_loop_store:
  "request_loop config do_fetch req attempts w = (r, w') \<Longrightarrow> store_untouched w w'"
proof (induction config do_fetch req attempts w arbitrary: r w' rule: request_loop.induct)
  case (1 config do_fetch req attempts w)
  show ?case
  proof (cases "attempts < maxRetries config")
    case False
    with "1.prems" show ?thesis by (simp add: store_untouched_def)
  next
    case True
    show ?thesis
    proof (cases "do_fetch (length (requests w))")
      case (Inr body)
      with True "1.prems" show ?thesis by (auto simp: store_untouched_def)
    next
      case (Inl error)
      show ?thesis
      proof (cases "attempts + 1 \<ge> maxRetries config")
        case True
        with \<open>attempts < maxRetries config\<close> Inl "1.prems" show ?thesis
          by (auto simp: store_untouched_def)
      next
        case False
        with \<open>attempts < maxRetries config\<close> Inl "1.prems"
        have "request_loop config do_fetch req (attempts + 1)
                (w\<lparr>requests := requests w @ [req],
                   sleeps := sleeps w @ [2 ^ (attempts + 1) * 100]\<rparr>) = (r, w')"
          by simp
        from "1.IH"[OF \<open>attempts < maxRetries config\<close> Inl False this]
        show ?thesis by (simp add: store_untouched_def)
      qed
    qed
  qed
qed

lemma request_store: "request config fetcher req w = (r, w') \<Longrightarrow> store_untouched w w'"
  unfolding request_def by (rule request_loop_store)

lemma getSwapsByContract_store:
  "getSwapsByContract env v ps w = (r, w') \<Longrightarrow> store_untouched w w'"
  unfolding getSwapsByContract_def by (rule request_store)

lemma getRecentSwaps_store: "getRecentSwaps env ps w = (r, w') \<Longrightarrow> store_untouched w w'"
  unfolding getRecentSwaps_def by (rule request_store)

lemma getTokenTransfers_store:
  "getTokenTransfers env a v ps w = (r, w') \<Longrightarrow> store_untouched w w'"
  unfolding getTokenTransfers_def by (rule request_store)

lemma getLatestPrices_store: "getLatestPrices env w = (r, w') \<Longrightarrow> store_untouched w w'"
  unfolding getLatestPrices_def by (rule request_store)

lemma date_now_store: "date_now env w = (t, w') \<Longrightarrow> store_untouched w w'"
  by (auto simp: date_now_def store_untouched_def)

lemma catch_unsatisfied_store:
  "catch_unsatisfied (r0, w0) = (r, w') \<Longrightarrow> store_untouched w w0 \<Longrightarrow> store_untouched w w'"
  by (auto simp: catch_unsatisfied_def split: sum.splits)

lemma swappedFor_loop_store:
  "swappedFor_loop env ps vs acc w = (r, w') \<Longrightarrow> store_untouched w w'"
proof (induction vs arbitrary: acc w)
  case Nil
  then show ?case by (simp add: store_untouched_refl)
next
  case (Cons v vs)
  obtain r1 w1 where g: "getSwapsByContract env v ps w = (r1, w1)"
    by (cases "getSwapsByContract env v ps w") auto
  then have s1: "store_untouched w w1" by (rule getSwapsByContract_store)
  from Cons.prems g have "w' = w1 \<or> (\<exists>acc'. swappedFor_loop env ps vs acc' w1 = (r, w'))"
    by (auto split: sum.splits option.splits if_splits)
  then show ?case
    using s1 Cons.IH store_untouched_trans by blast
qed

lemma swappedFor_body_store:
  "swappedFor_body env token start end_at w = (r, w') \<Longrightarrow> store_untouched w w'"
proof -
  assume a: "swappedFor_body env token start end_at w = (r, w')"
  let ?w1 = "w\<lparr>ticks := ticks w + 1\<rparr>"
  have s1: "store_untouched w ?w1" by (simp add: store_untouched_def)
  from a have "w' = ?w1 \<or> (\<exists>ps r2. swappedFor_loop env ps (normalizeTokenPrincipal token) [] ?w1 = (r2, w'))"
    by (auto simp: swappedFor_body_def date_now_def Let_def split: sum.splits prod.splits)
  then show ?thesis
    using s1 swappedFor_loop_store store_untouched_trans by blast
qed

lemma swappedFor_store: "swappedFor env token start end_at w = (r, w') \<Longrightarrow> store_untouched w w'"
  unfolding swappedFor_def
  by (cases "swappedFor_body env token start end_at w")
     (auto intro: catch_unsatisfied_store swappedFor_body_store store_untouched_refl
           dest!: swappedFor_body_store simp: catch_unsatisfied_def split: sum.splits)

lemma recentSwaps_store: "recentSwaps env w = (r, w') \<Longrightarrow> store_untouched w w'"
proof -
  assume a: "recentSwaps env w = (r, w')"
  obtain r1 w1 where g: "getRecentSwaps env [(''limit'', PNum 100)] w = (r1, w1)"
    by (cases "getRecentSwaps env [(''limit'', PNum 100)] w") auto
  with a have "w' = w1" by (auto simp: recentSwaps_def split: sum.splits option.splits)
  with g show ?thesis by (auto dest: getRecentSwaps_store)
qed

lemma minValueSwap_store:
  assumes "minValueSwap env t getTransactions w = (r, w')"
    and "\<And>w0 r0 w1. getTransactions w0 = (r0, w1) \<Longrightarrow> store_untouched w0 w1"
  shows "store_untouched w w'"
proof -
  obtain r1 w1 where g: "getTransactions w = (r1, w1)" by (cases "getTransactions w") auto
  then have s1: "store_untouched w w1" by (rule assms(2))
  obtain r2 w2 where p: "getLatestPrices env w1 = (r2, w2)" by (cases "getLatestPrices env w1") auto
  then have s2: "store_untouched w1 w2" by (rule getLatestPrices_store)
  from assms(1) g p have "w' = w1 \<or> w' = w2"
    by (auto simp: minValueSwap_def minValueSwap_body_def catch_unsatisfied_def Let_def
        split: sum.splits)
  with s1 s2 show ?thesis using store_untouched_trans by blast
qed

lemma firstNBuyers_store:
  assumes "firstNBuyers env token n t start w = (r, w')"
  shows "store_untouched w w'"
proof -
  obtain r1 w1 where g: "swappedFor env token start None w = (r1, w1)"
    by (cases "swappedFor env token start None w") auto
  then have s1: "store_untouched w w1" by (rule swappedFor_store)
  have "w' = w1 \<or> (\<exists>txs r2. minValueSwap env t (\<lambda>w'. (Inr txs, w')) w1 = (r2, w'))"
    using assms g
    by (auto simp: firstNBuyers_def firstNBuyers_body_def catch_unsatisfied_def
        split: sum.splits if_splits prod.splits)
  then show ?thesis
  proof
    assume "w' = w1" with s1 show ?thesis by simp
  next
    assume "\<exists>txs r2. minValueSwap env t (\<lambda>w'. (Inr txs, w')) w1 = (r2, w')"
    then obtain txs r2 where m: "minValueSwap env t (\<lambda>w'. (Inr txs, w')) w1 = (r2, w')" by blast
    have "store_untouched w1 w'"
      by (rule minValueSwap_store[OF m]) (auto simp: store_untouched_refl)
    with s1 show ?thesis by (rule store_untouched_trans)
  qed
qed

lemma holdsToken_loop_store:
  "holdsToken_loop env a vs w = (r, w') \<Longrightarrow> store_untouched w w'"
proof (induction vs arbitrary: w)
  case Nil
  then show ?case by (simp add: store_untouched_refl)
next
  case (Cons v vs)
  obtain r1 w1 where g: "getTokenTransfers env a v [(''limit'', PNum 100)] w = (r1, w1)"
    by (cases "getTokenTransfers env a v [(''limit'', PNum 100)] w") auto
  then have s1: "store_untouched w w1" by (rule getTokenTransfers_store)
  from Cons.prems g have "w' = w1 \<or> holdsToken_loop env a vs w1 = (r, w')"
    by (auto split: sum.splits option.splits if_splits)
  then show ?case
    using s1 Cons.IH store_untouched_trans by blast
qed

lemma holdsToken_store: "holdsToken env a token w = (r, w') \<Longrightarrow> store_untouched w w'"
proof -
  assume a: "holdsToken env a token w = (r, w')"
  obtain r1 w1 where g: "holdsToken_loop env a (normalizeTokenPrincipal token) w = (r1, w1)"
    by (cases "holdsToken_loop env a (normalizeTokenPrincipal token) w") auto
  with a have "w' = w1"
    by (auto simp: holdsToken_def holdsToken_body_def catch_unsatisfied_def split: sum.splits)
  with g show ?thesis by (auto dest: holdsToken_loop_store)
qed

lemma build_validator_store:
  assumes "build_validator env c = Inr validator" and "validator w = (r, w')"
  shows "store_untouched w w'"
proof -
  from assms(1) consider
      (a) token start end_at where "validator = swappedFor env token start end_at"
    | (b) token n t start where "validator = firstNBuyers env token n t start"
    | (c) t where "validator = minValueSwap env t (recentSwaps env)"
    | (d) a token where "validator = holdsToken env a token"
    by (auto simp: build_validator_def Let_def split: if_splits)
  then show ?thesis
  proof cases
    case a with assms(2) show ?thesis by (auto dest: swappedFor_store)
  next
    case b with assms(2) show ?thesis by (auto dest: firstNBuyers_store)
  next
    case c with assms(2) show ?thesis
      by (auto intro: minValueSwap_store recentSwaps_store)
  next
    case d with assms(2) show ?thesis by (auto dest: holdsToken_store)
  qed
qed

section \<open>Properties of the runner\<close>

text \<open>
  C9. When the read of the quest's latest validation succeeds and that record has a
  \<open>nextValidationAt\<close> later than the clock's reading, \<open>validateSingleQuest\<close> returns at
  once: the new world differs from the old one only in the counts of database reads and
  clock readings. No request is made, no record is created or changed; the sweep goes on
  with the next quest.
\<close>

theorem quest_not_due_is_skipped:
  assumes "db_fault env (db_ops w) = None"
      and "latest_of (filter (\<lambda>u. questId u = quest_id q) (validations w)) = Some v"
      and "nextValidationAt v = Some next_at"
      and "clock env (ticks w) < next_at"
  shows "validateSingleQuest env q w = (Inr (), w\<lparr>db_ops := db_ops w + 1, ticks := ticks w + 1\<rparr>) \<and>
         validate_each env (q # qs) w =
           validate_each env qs (w\<lparr>db_ops := db_ops w + 1, ticks := ticks w + 1\<rparr>)"
proof -
  have "validateSingleQuest env q w = (Inr (), w\<lparr>db_ops := db_ops w + 1, ticks := ticks w + 1\<rparr>)"
    using assms
    by (simp add: validateSingleQuest_def getLatestQuestValidation_def db_step_def is_due_def
        date_now_def)
  then show ?thesis by simp
qed

theorem quest_not_due_witness:
  "validateSingleQuest market_env (example_quest ''q1'' ''swappedFor'') validated_world =
     (Inr (), validated_world\<lparr>db_ops := 1, ticks := 1\<rparr>) \<and>
   requests (snd (validateSingleQuest market_env (example_quest ''q1'' ''swappedFor'')
                    validated_world)) = [] \<and>
   requests (snd (validateSingleQuest market_env (example_quest ''q1'' ''swappedFor'')
                    (world_with [example_quest ''q1'' ''swappedFor'']))) =
     [\<lparr>endpoint = ''/swaps/contract/T'', verb = GET,
       params = [(''limit'', PNum 100), (''start_date'', PDate 0),
                 (''end_date'', PDate 1700000002000)]\<rparr>]"
proof -
  have due: "requests (snd (validateSingleQuest market_env (example_quest ''q1'' ''swappedFor'')
                    (world_with [example_quest ''q1'' ''swappedFor'']))) =
     [\<lparr>endpoint = ''/swaps/contract/T'', verb = GET,
       params = [(''limit'', PNum 100), (''start_date'', PDate 0),
                 (''end_date'', PDate 1700000002000)]\<rparr>]"
    by code_simp
  from quest_not_due_is_skipped[where env = market_env and w = validated_world
      and q = "example_quest ''q1'' ''swappedFor''"
      and v = "\<lparr>validation_id = 0, questId = ''q1'', validatedAt = 1699999990000, status = Success,
            validationData = (quest_criteria (example_quest ''q1'' ''swappedFor''), 1699999989000),
            errorMessage = None, nextValidationAt = Some 1700000590000,
            validAddresses = [''X''], processingTime = 1000\<rparr>"
      and next_at = 1700000590000] due
  show ?thesis
    by (simp add: market_env_def validated_world_def initial_world_def example_quest_def)
qed

lemma createQuestValidationResult_validations:
  "createQuestValidationResult env vid a ok d ct w = (r, w') \<Longrightarrow> validations w' = validations w"
  by (auto simp: createQuestValidationResult_def date_now_def db_step_def
      split: prod.splits option.splits)

lemma save_results_validations:
  "save_results env vid ct ms w = (r, w') \<Longrightarrow> validations w' = validations w"
proof (induction ms arbitrary: w)
  case Nil
  then show ?case by simp
next
  case (Cons m ms)
  obtain r1 w1 where c: "createQuestValidationResult env vid (user_address m) True m ct w = (r1, w1)"
    by (cases "createQuestValidationResult env vid (user_address m) True m ct w") auto
  then have v1: "validations w1 = validations w" by (rule createQuestValidationResult_validations)
  from Cons.prems c have "w' = w1 \<or> save_results env vid ct ms w1 = (r, w')"
    by (auto split: sum.splits)
  with v1 Cons.IH show ?case by auto
qed

lemma updateQuestValidation_thrown:
  "updateQuestValidation env vid s e a t n w = (Inl error, w') \<Longrightarrow> validations w' = validations w"
  by (auto simp: updateQuestValidation_def db_step_def split: option.splits)

lemma validate_criteria_thrown:
  assumes "validate_criteria env q vid started w = (Inl error, w')"
  shows "validations w' = validations w"
proof (cases "build_validator env (quest_criteria q)")
  case (Inl e)
  with assms show ?thesis by (simp add: validate_criteria_def)
next
  case (Inr validator)
  obtain r1 w1 where v: "validator w = (r1, w1)" by (cases "validator w") auto
  from build_validator_store[OF Inr v] have s1: "validations w1 = validations w"
    by (simp add: store_untouched_def)
  show ?thesis
  proof (cases r1)
    case (Inl e)
    with assms Inr v s1 show ?thesis by (simp add: validate_criteria_def)
  next
    case (Inr validationResult)
    obtain r2 w2 where s: "save_results env vid (criteria_type (quest_criteria q))
                             (matches validationResult) w1 = (r2, w2)"
      by (cases "save_results env vid (criteria_type (quest_criteria q))
                             (matches validationResult) w1") auto
    then have s2: "validations w2 = validations w1" by (rule save_results_validations)
    show ?thesis
    proof (cases r2)
      case (Inl e)
      with assms \<open>build_validator env (quest_criteria q) = Inr validator\<close> v Inr s s1 s2
      show ?thesis by (simp add: validate_criteria_def)
    next
      case (Inr u)
      with assms \<open>build_validator env (quest_criteria q) = Inr validator\<close> v
        \<open>r1 = Inr validationResult\<close> s
      have "\<exists>st e a t n. updateQuestValidation env vid st e a t n
              (w2\<lparr>ticks := ticks w2 + 1 + 1\<rparr>) = (Inl error, w')"
        by (simp add: validate_criteria_def date_now_def) blast
      then have "validations w' = validations w2"
        by (auto dest: updateQuestValidation_thrown)
      with s1 s2 show ?thesis by simp
    qed
  qed
qed

lemma createQuestValidation_created:
  assumes "createQuestValidation env qid data w = (Inr validation, w')"
  shows "validations w' = validations w @ [validation] \<and>
         validation_id validation = length (validations w) \<and> errorMessage validation = None"
  using assms
  by (auto simp: createQuestValidation_def date_now_def db_step_def Let_def
      split: prod.splits option.splits)

lemma update_last_row:
  assumes "\<forall>u\<in>set xs. validation_id u < length xs" and "validation_id v = length xs"
  shows "map (\<lambda>u. if validation_id u = length xs then f u else u) (xs @ [v]) = xs @ [f v]"
proof -
  have "map (\<lambda>u. if validation_id u = length xs then f u else u) xs = xs"
    using assms(1) by (intro map_idI) auto
  with assms(2) show ?thesis by simp
qed

lemma SUCCESS_before_ERROR: "VALIDATION_FREQUENCY_SUCCESS < VALIDATION_FREQUENCY_ERROR"
  by (simp add: VALIDATION_FREQUENCY_SUCCESS_def VALIDATION_FREQUENCY_ERROR_def)

lemma record_error_updates:
  assumes "db_fault env (db_ops w) = None"
    and "\<forall>u\<in>set xs. validation_id u < length xs" and "validation_id v = length xs"
    and "validations w = xs @ [v]"
  shows "\<exists>w'. record_error env (length xs) started error w = (Inr (), w') \<and>
           validations w' =
             xs @ [v\<lparr>status := Failed,
                     errorMessage := Some (case error of Error message \<Rightarrow> message
                                           | NonError \<Rightarrow> ''Unknown error during validation''),
                     processingTime := clock env (ticks w + 1) - started,
                     nextValidationAt := Some (clock env (ticks w) + VALIDATION_FREQUENCY_ERROR)\<rparr>]"
  using assms update_last_row[OF assms(2,3)]
  by (simp add: record_error_def date_now_def updateQuestValidation_def db_step_def
      apply_updates_def)

lemma run_validation_thrown:
  assumes wf: "\<forall>u\<in>set (validations w). validation_id u < length (validations w)"
    and created: "createQuestValidation env (quest_id q) (quest_criteria q, clock env (ticks w))
                    (w\<lparr>ticks := ticks w + 1\<rparr>) = (Inr validation, w2)"
    and thrown: "validate_criteria env q (validation_id validation) (clock env (ticks w)) w2 =
                   (Inl error, w3)"
    and store_ok: "db_fault env (db_ops w3) = None"
  shows "\<exists>w4. run_validation env q w = (Inr (), w4) \<and>
           validations w4 =
             validations w @
               [validation\<lparr>status := Failed,
                   errorMessage := Some (case error of Error message \<Rightarrow> message
                                         | NonError \<Rightarrow> ''Unknown error during validation''),
                   processingTime := clock env (ticks w3 + 1) - clock env (ticks w),
                   nextValidationAt := Some (clock env (ticks w3) + VALIDATION_FREQUENCY_ERROR)\<rparr>]"
proof -
  from createQuestValidation_created[OF created]
  have c: "validations w2 = validations w @ [validation]"
    "validation_id validation = length (validations w)" by simp_all
  from validate_criteria_thrown[OF thrown] c
  have v3: "validations w3 = validations w @ [validation]" by simp
  from record_error_updates[OF store_ok wf c(2) v3, of "clock env (ticks w)" error]
  obtain w4 where r: "record_error env (length (validations w)) (clock env (ticks w)) error w3 = (Inr (), w4)"
    and v4: "validations w4 =
             validations w @
               [validation\<lparr>status := Failed,
                   errorMessage := Some (case error of Error message \<Rightarrow> message
                                         | NonError \<Rightarrow> ''Unknown error during validation''),
                   processingTime := clock env (ticks w3 + 1) - clock env (ticks w),
                   nextValidationAt := Some (clock env (ticks w3) + VALIDATION_FREQUENCY_ERROR)\<rparr>]"
    by blast
  have "run_validation env q w = (Inr (), w4)"
    using created thrown r c(2) by (simp add: run_validation_def date_now_def)
  with v4 show ?thesis by blast
qed

lemma run_validation_unsatisfied:
  assumes wf: "\<forall>u\<in>set (validations w). validation_id u < length (validations w)"
    and created: "createQuestValidation env (quest_id q) (quest_criteria q, clock env (ticks w))
                    (w\<lparr>ticks := ticks w + 1\<rparr>) = (Inr validation, w2)"
    and built: "build_validator env (quest_criteria q) = Inr validator"
    and ran: "validator w2 = (Inr \<lparr>satisfied = False, matches = []\<rparr>, w3)"
    and store_ok: "db_fault env (db_ops w3) = None"
  shows "\<exists>w4. run_validation env q w = (Inr (), w4) \<and>
           validations w4 =
             validations w @
               [validation\<lparr>status := Failed, errorMessage := None, validAddresses := [],
                   processingTime := clock env (ticks w3 + 1) - clock env (ticks w),
                   nextValidationAt := Some (clock env (ticks w3) + VALIDATION_FREQUENCY_SUCCESS)\<rparr>]"
proof -
  from createQuestValidation_created[OF created]
  have c: "validations w2 = validations w @ [validation]"
    "validation_id validation = length (validations w)" "errorMessage validation = None"
    by simp_all
  from build_validator_store[OF built ran] c
  have v3: "validations w3 = validations w @ [validation]" by (simp add: store_untouched_def)
  have e: "validation\<lparr>errorMessage := None\<rparr> = validation" using c(3) by simp
  let ?w4 = "w3\<lparr>ticks := ticks w3 + 1 + 1, db_ops := db_ops w3 + 1,
                validations := validations w @
               [validation\<lparr>status := Failed, errorMessage := None, validAddresses := [],
                   processingTime := clock env (ticks w3 + 1) - clock env (ticks w),
                   nextValidationAt := Some (clock env (ticks w3) + VALIDATION_FREQUENCY_SUCCESS)\<rparr>]\<rparr>"
  have "validate_criteria env q (length (validations w)) (clock env (ticks w)) w2 = (Inr (), ?w4)"
    using built ran store_ok v3 update_last_row[OF wf c(2)] c(3)
    by (simp add: validate_criteria_def date_now_def updateQuestValidation_def db_step_def
        apply_updates_def)
  then have "run_validation env q w = (Inr (), ?w4)"
    using created c(2) by (simp add: run_validation_def date_now_def)
  then show ?thesis by (intro exI[of _ ?w4]) simp
qed

text \<open>
  C4 (as amended). Once the validation record is created (in a store whose ids are
  unique): when the inner \<open>try\<close> throws (an unsupported criteria type, a failed write to
  the result store, a validator that rejects) and the store accepts the update, the run
  ends with the record at \<open>failed\<close>, the error's message, and \<open>nextValidationAt\<close> the
  clock's reading plus the error interval. When the validator resolves unsatisfied with
  no match, as every primitive does after an upstream failure, the record ends at
  \<open>failed\<close> with no error message and \<open>nextValidationAt\<close> the reading plus the success
  interval. For one and the same reading the error interval gives the later time.
\<close>

theorem thrown_error_backs_off_longer:
  assumes "\<forall>u\<in>set (validations w). validation_id u < length (validations w)"
    and "createQuestValidation env (quest_id q) (quest_criteria q, clock env (ticks w))
           (w\<lparr>ticks := ticks w + 1\<rparr>) = (Inr validation, w2)"
  shows "(validate_criteria env q (validation_id validation) (clock env (ticks w)) w2 =
            (Inl error, w3) \<and> db_fault env (db_ops w3) = None \<longrightarrow>
          (\<exists>w4. run_validation env q w = (Inr (), w4) \<and>
             validations w4 =
               validations w @
                 [validation\<lparr>status := Failed,
                     errorMessage := Some (case error of Error message \<Rightarrow> message
                                           | NonError \<Rightarrow> ''Unknown error during validation''),
                     processingTime := clock env (ticks w3 + 1) - clock env (ticks w),
                     nextValidationAt :=
                       Some (clock env (ticks w3) + VALIDATION_FREQUENCY_ERROR)\<rparr>])) \<and>
         (build_validator env (quest_criteria q) = Inr validator \<and>
          validator w2 = (Inr \<lparr>satisfied = False, matches = []\<rparr>, w3) \<and>
          db_fault env (db_ops w3) = None \<longrightarrow>
          (\<exists>w4. run_validation env q w = (Inr (), w4) \<and>
             validations w4 =
               validations w @
                 [validation\<lparr>status := Failed, errorMessage := None, validAddresses := [],
                     processingTime := clock env (ticks w3 + 1) - clock env (ticks w),
                     nextValidationAt :=
                       Some (clock env (ticks w3) + VALIDATION_FREQUENCY_SUCCESS)\<rparr>])) \<and>
         (\<forall>now. now + VALIDATION_FREQUENCY_SUCCESS < now + VALIDATION_FREQUENCY_ERROR)"
proof (intro conjI impI allI)
  assume "validate_criteria env q (validation_id validation) (clock env (ticks w)) w2 =
            (Inl error, w3) \<and> db_fault env (db_ops w3) = None"
  then show "\<exists>w4. run_validation env q w = (Inr (), w4) \<and>
             validations w4 =
               validations w @
                 [validation\<lparr>status := Failed,
                     errorMessage := Some (case error of Error message \<Rightarrow> message
                                           | NonError \<Rightarrow> ''Unknown error during validation''),
                     processingTime := clock env (ticks w3 + 1) - clock env (ticks w),
                     nextValidationAt :=
                       Some (clock env (ticks w3) + VALIDATION_FREQUENCY_ERROR)\<rparr>]"
    using run_validation_thrown[OF assms, of error w3] by blast
next
  assume "build_validator env (quest_criteria q) = Inr validator \<and>
          validator w2 = (Inr \<lparr>satisfied = False, matches = []\<rparr>, w3) \<and>
          db_fault env (db_ops w3) = None"
  then show "\<exists>w4. run_validation env q w = (Inr (), w4) \<and>
             validations w4 =
               validations w @
                 [validation\<lparr>status := Failed, errorMessage := None, validAddresses := [],
                     processingTime := clock env (ticks w3 + 1) - clock env (ticks w),
                     nextValidationAt :=
                       Some (clock env (ticks w3) + VALIDATION_FREQUENCY_SUCCESS)\<rparr>]"
    using run_validation_unsatisfied[OF assms, of validator w3] by blast
next
  fix now
  show "now + VALIDATION_FREQUENCY_SUCCESS < now + VALIDATION_FREQUENCY_ERROR"
    using SUCCESS_before_ERROR by simp
qed

theorem thrown_error_witness:
  "(\<exists>w4. run_validation market_env (example_quest ''q2'' ''bogus'') validated_world = (Inr (), w4) \<and>
      validations w4 =
        validations validated_world @
        [(pending_validation 1 ''q2'' ''bogus'')
           \<lparr>status := Failed, errorMessage := Some ''Unsupported criteria type: bogus'',
            processingTime := 3000, nextValidationAt := Some 1700000902000\<rparr>]) \<and>
   (\<exists>w4. run_validation offline_env (example_quest ''q1'' ''swappedFor'')
            (world_with [example_quest ''q1'' ''swappedFor'']) = (Inr (), w4) \<and>
      validations w4 =
        [(pending_validation 0 ''q1'' ''swappedFor'')
           \<lparr>status := Failed, errorMessage := None, validAddresses := [],
            processingTime := 4000, nextValidationAt := Some 1700000603000\<rparr>])"
proof -
  let ?q = "example_quest ''q2'' ''bogus''"
  let ?w = "validated_world"
  let ?w2 = "?w\<lparr>ticks := 2, db_ops := 1,
                validations := validations validated_world @ [pending_validation 1 ''q2'' ''bogus'']\<rparr>"
  have wf: "\<forall>u\<in>set (validations ?w). validation_id u < length (validations ?w)"
    by (simp add: validated_world_def initial_world_def)
  have created: "createQuestValidation market_env (quest_id ?q)
           (quest_criteria ?q, clock market_env (ticks ?w)) (?w\<lparr>ticks := ticks ?w + 1\<rparr>) =
         (Inr (pending_validation 1 ''q2'' ''bogus''), ?w2)"
    by code_simp
  have thrown: "validate_criteria market_env ?q (validation_id (pending_validation 1 ''q2'' ''bogus''))
           (clock market_env (ticks ?w)) ?w2 =
         (Inl (Error ''Unsupported criteria type: bogus''), ?w2)"
    by code_simp
  have ok: "db_fault market_env (db_ops ?w2) = None"
    by (simp add: market_env_def)
  have a: "\<exists>w4. run_validation market_env ?q ?w = (Inr (), w4) \<and>
      validations w4 =
        validations validated_world @
        [(pending_validation 1 ''q2'' ''bogus'')
           \<lparr>status := Failed, errorMessage := Some ''Unsupported criteria type: bogus'',
            processingTime := 3000, nextValidationAt := Some 1700000902000\<rparr>]"
    using thrown_error_backs_off_longer[OF wf created,
        of "Error ''Unsupported criteria type: bogus''" ?w2] thrown ok
    by (simp add: market_env_def validated_world_def initial_world_def
        VALIDATION_FREQUENCY_ERROR_def)
  let ?p = "example_quest ''q1'' ''swappedFor''"
  let ?v = "world_with [?p]"
  let ?v2 = "?v\<lparr>ticks := 2, db_ops := 1,
                validations := [pending_validation 0 ''q1'' ''swappedFor'']\<rparr>"
  let ?v3 = "?v2\<lparr>ticks := 3,
                 requests := replicate 3 \<lparr>endpoint = ''/swaps/contract/T'', verb = GET,
                     params = [(''limit'', PNum 100), (''start_date'', PDate 0),
                               (''end_date'', PDate 1700000002000)]\<rparr>,
                 sleeps := [200, 400]\<rparr>"
  have wf': "\<forall>u\<in>set (validations ?v). validation_id u < length (validations ?v)"
    by (simp add: world_with_def initial_world_def)
  have created': "createQuestValidation offline_env (quest_id ?p)
           (quest_criteria ?p, clock offline_env (ticks ?v)) (?v\<lparr>ticks := ticks ?v + 1\<rparr>) =
         (Inr (pending_validation 0 ''q1'' ''swappedFor''), ?v2)"
    by code_simp
  have built: "build_validator offline_env (quest_criteria ?p) =
                 Inr (swappedFor offline_env ''T'' 0 None)"
    by (simp add: build_validator_def example_quest_def)
  have ran: "swappedFor offline_env ''T'' 0 None ?v2 = (Inr \<lparr>satisfied = False, matches = []\<rparr>, ?v3)"
    by code_simp
  have ok': "db_fault offline_env (db_ops ?v3) = None"
    by (simp add: offline_env_def)
  have b: "\<exists>w4. run_validation offline_env ?p ?v = (Inr (), w4) \<and>
      validations w4 =
        [(pending_validation 0 ''q1'' ''swappedFor'')
           \<lparr>status := Failed, errorMessage := None, validAddresses := [],
            processingTime := 4000, nextValidationAt := Some 1700000603000\<rparr>]"
    using thrown_error_backs_off_longer[OF wf' created',
        of "Error ''x''" ?v3 "swappedFor offline_env ''T'' 0 None"] built ran ok'
    by (simp add: offline_env_def world_with_def initial_world_def VALIDATION_FREQUENCY_SUCCESS_def)
  from a b show ?thesis by blast
qed

text \<open>
  C4 as stated fails for an upstream failure: every request of the sweep fails after
  its retries, the primitive resolves unsatisfied, and the record is \<open>failed\<close> with no
  error message and the success interval.
\<close>

theorem upstream_failure_counterexample:
  "validateAllActiveQuests offline_env (world_with [example_quest ''q1'' ''swappedFor'']) =
     (Inr (),
      (world_with [example_quest ''q1'' ''swappedFor''])
        \<lparr>requests := replicate 3 \<lparr>endpoint = ''/swaps/contract/T'', verb = GET,
                         params = [(''limit'', PNum 100), (''start_date'', PDate 0),
                                   (''end_date'', PDate 1700000002000)]\<rparr>,
         sleeps := [200, 400], ticks := 5, db_ops := 4,
         validations :=
           [(pending_validation 0 ''q1'' ''swappedFor'')
              \<lparr>status := Failed, errorMessage := None,
               nextValidationAt := Some (1700000003000 + VALIDATION_FREQUENCY_SUCCESS),
               processingTime := 4000\<rparr>]\<rparr>)"
  by code_simp

text \<open>
  C8 at its failing input: the database fails the read of the latest validation of the
  first of two quests; the sweep rejects and the second quest is never validated. When
  instead the creation of the first quest's record fails, the sweep goes on and
  validates the second quest.
\<close>

theorem sweep_aborts_when_latest_lookup_fails:
  "validateAllActiveQuests (db_failing_at 1 market_env)
     (world_with [example_quest ''q1'' ''swappedFor'', example_quest ''q2'' ''swappedFor'']) =
     (Inl (Error ''connection lost''),
      (world_with [example_quest ''q1'' ''swappedFor'', example_quest ''q2'' ''swappedFor''])
        \<lparr>db_ops := 2\<rparr>) \<and>
   fst (validateAllActiveQuests (db_failing_at 2 market_env)
     (world_with [example_quest ''q1'' ''swappedFor'', example_quest ''q2'' ''swappedFor''])) =
     Inr () \<and>
   map questId (validations (snd (validateAllActiveQuests (db_failing_at 2 market_env)
     (world_with [example_quest ''q1'' ''swappedFor'', example_quest ''q2'' ''swappedFor''])))) =
     [''q2'']"
  by code_simp

text \<open>
  The rest of \<open>validateSingleQuest\<close> never rejects: only a failure of that first read
  leaves it.
\<close>

lemma run_validation_never_rejects: "\<exists>w'. run_validation env q w = (Inr (), w')"
  by (auto simp: run_validation_def split: prod.splits sum.splits)

lemma validateSingleQuest_rejects_on_lookup_only:
  "validateSingleQuest env q w = (Inl error, w') \<Longrightarrow> db_fault env (db_ops w) = Some error"
  using run_validation_never_rejects
  apply (auto simp: validateSingleQuest_def getLatestQuestValidation_def db_step_def
      split: prod.splits sum.splits option.splits bool.splits)
  by (metis Inl_Inr_False fst_conv)

end
